theory Spec2Isabelle
  imports Main "HOL-Library.Word"
begin

unbundle bit_operations_syntax

section \<open>The node factory of \<open>swift/Basic/Demangler.h\<close>\<close>

text \<open>
  The header is modelled for an LP64 target: \<open>size_t\<close> and \<open>uintptr_t\<close> are 64-bit
  words whose arithmetic wraps, a \<open>char *\<close> is its address, and \<open>sizeof(Slab)\<close> is the
  size of the one pointer the struct holds.  The process memory is a function from
  addresses to bytes; the factory's record carries it in the field \<open>memory\<close>, next to
  the four data members of the class.
\<close>

type_synonym size_t = "64 word"
type_synonym ptr = "64 word"
type_synonym byte = "8 word"

datatype fault = AssertionFailed | NullDereference

record NodeFactory =
  CurPtr :: ptr
  End :: ptr
  CurrentSlab :: ptr
  SlabSize :: size_t
  memory :: "ptr \<Rightarrow> byte"

definition sizeof_Slab :: size_t where
  "sizeof_Slab = 8"

text \<open>\<open>align\<close>: the caller checks the assertion \<open>Alignment > 0\<close> before it calls.\<close>

definition align :: "ptr \<Rightarrow> size_t \<Rightarrow> ptr" where
  "align Ptr Alignment = (Ptr + Alignment - 1) AND NOT (Alignment - 1)"

text \<open>Writing a pointer (little-endian) and \<open>memcpy\<close> on the byte memory.\<close>

definition store_ptr :: "(ptr \<Rightarrow> byte) \<Rightarrow> ptr \<Rightarrow> ptr \<Rightarrow> (ptr \<Rightarrow> byte)" where
  "store_ptr m a v =
     (\<lambda>x. if unat (x - a) < 8 then ucast (drop_bit (8 * unat (x - a)) v) else m x)"

definition memcpy :: "(ptr \<Rightarrow> byte) \<Rightarrow> ptr \<Rightarrow> ptr \<Rightarrow> size_t \<Rightarrow> (ptr \<Rightarrow> byte)" where
  "memcpy m dst src n = (\<lambda>x. if unat (x - dst) < unat n then m (src + (x - dst)) else m x)"

text \<open>
  The constructor: \<open>SlabSize = 100 * sizeof(Node)\<close>.  \<open>Node\<close> is declared in
  \<open>swift/Basic/Demangle.h\<close>, so its size is a parameter.
\<close>

definition NodeFactory_init :: "size_t \<Rightarrow> (ptr \<Rightarrow> byte) \<Rightarrow> NodeFactory" where
  "NodeFactory_init sizeof_Node m =
     \<lparr>CurPtr = 0, End = 0, CurrentSlab = 0, SlabSize = 100 * sizeof_Node, memory = m\<rparr>"

text \<open>
  \<open>Allocate<T>(NumObjects)\<close>.  The template argument is given by \<open>sizeof(T)\<close> and
  \<open>alignof(T)\<close>; \<open>malloc\<close> is the answer of the C library to a request of the given
  size at this call.  A failing \<open>assert\<close> and the write through a null \<open>newSlab\<close>
  end the call with a fault.
\<close>

definition Allocate ::
  "size_t \<Rightarrow> size_t \<Rightarrow> (size_t \<Rightarrow> ptr) \<Rightarrow> size_t \<Rightarrow> 'a NodeFactory_scheme
     \<Rightarrow> fault + (ptr \<times> 'a NodeFactory_scheme)" where
  "Allocate sizeofT alignofT malloc NumObjects F =
     (let ObjectSize = NumObjects * sizeofT in
      if alignofT = 0 then Inl AssertionFailed
      else
        let CurPtr1 = align (CurPtr F) alignofT in
        if CurPtr1 + ObjectSize > End F then
          let SlabSize1 = max (SlabSize F * 2) ObjectSize;
              AllocSize = sizeof_Slab + SlabSize1;
              newSlab = malloc AllocSize
          in if newSlab = 0 then Inl NullDereference
             else
               let memory1 = store_ptr (memory F) newSlab (CurrentSlab F);
                   CurPtr2 = newSlab + sizeof_Slab
               in if align CurPtr2 alignofT \<noteq> CurPtr2 then Inl AssertionFailed
                  else
                    let End1 = CurPtr2 + SlabSize1
                    in if End1 \<noteq> newSlab + AllocSize then Inl AssertionFailed
                       else Inr (CurPtr2,
                                 F\<lparr>CurPtr := CurPtr2 + ObjectSize, End := End1,
                                   CurrentSlab := newSlab, SlabSize := SlabSize1,
                                   memory := memory1\<rparr>)
        else Inr (CurPtr1, F\<lparr>CurPtr := CurPtr1 + ObjectSize\<rparr>))"

text \<open>
  \<open>Reallocate<T>(Objects, Capacity, MinGrowth)\<close>: the two reference parameters are
  returned with the factory.
\<close>

definition Reallocate ::
  "size_t \<Rightarrow> size_t \<Rightarrow> (size_t \<Rightarrow> ptr) \<Rightarrow> ptr \<Rightarrow> size_t \<Rightarrow> size_t \<Rightarrow> 'a NodeFactory_scheme
     \<Rightarrow> fault + (ptr \<times> size_t \<times> 'a NodeFactory_scheme)" where
  "Reallocate sizeofT alignofT malloc Objects Capacity MinGrowth F =
     (let OldAllocSize = Capacity * sizeofT;
          AdditionalAlloc = MinGrowth * sizeofT
      in if Objects + OldAllocSize = CurPtr F \<and> CurPtr F + AdditionalAlloc \<le> End F
         then Inr (Objects, Capacity + MinGrowth, F\<lparr>CurPtr := CurPtr F + AdditionalAlloc\<rparr>)
         else
           let Growth0 = (if MinGrowth \<ge> 4 then MinGrowth else 4);
               Growth = (if Growth0 < Capacity * 2 then Capacity * 2 else Growth0)
           in case Allocate sizeofT alignofT malloc (Capacity + Growth) F of
                Inl e \<Rightarrow> Inl e
              | Inr (NewObjects, F1) \<Rightarrow>
                  Inr (NewObjects, Capacity + Growth,
                       F1\<lparr>memory := memcpy (memory F1) NewObjects Objects OldAllocSize\<rparr>))"


section \<open>The demangler's cursor, node stack and substitution list\<close>

text \<open>
  Modelled from the spec: \<open>Node\<close>, \<open>Node::Kind\<close> and \<open>NodePointer\<close> are declared in
  \<open>swift/Basic/Demangle.h\<close>, which is not part of the sources at hand.  A node has a
  kind, an optional integer or text payload and an ordered sequence of children; a kind
  is the value of the enumeration; a \<open>NodePointer\<close> is null (\<open>None\<close>) or refers to a
  node.
\<close>

type_synonym Kind = "16 word"

datatype Payload = NoPayload | IndexPayload "64 word" | TextPayload string

datatype Node = MkNode (getKind: Kind) (getPayload: Payload) (getChildren: "Node list")

type_synonym NodePointer = "Node option"

text \<open>
  \<open>struct NodeWithPos { NodePointer Node; size_t Pos; }\<close>; the second selector is
  renamed, \<open>Pos\<close> being the cursor of the demangler below.
\<close>

datatype NodeWithPos = NodeWithPos (Node: NodePointer) (PosAtPush: size_t)

text \<open>
  The part of \<open>llvm::StringRef\<close> the header uses, on strings as lists of characters:
  \<open>size\<close>, \<open>substr\<close> with one argument (the start is clipped to the length) and
  \<open>startswith\<close>.
\<close>

definition StringRef_size :: "string \<Rightarrow> size_t" where
  "StringRef_size str = of_nat (length str)"

definition substr :: "string \<Rightarrow> size_t \<Rightarrow> string" where
  "substr str Start = drop (unat (min Start (StringRef_size str))) str"

definition startswith :: "string \<Rightarrow> string \<Rightarrow> bool" where
  "startswith str Prefix \<longleftrightarrow> length Prefix \<le> length str \<and> take (length Prefix) str = Prefix"

definition MaxNumWords :: int where
  "MaxNumWords = 26"

text \<open>
  \<open>class Demangler : public NodeFactory\<close>.  A \<open>std::vector\<close> is a list whose last
  element is \<open>back()\<close>; the array \<open>Words\<close> is a list of its \<open>MaxNumWords\<close> slots.
\<close>

record Demangler = NodeFactory +
  Text :: string
  Pos :: size_t
  NodeStack :: "NodeWithPos list"
  Substitutions :: "NodePointer list"
  PendingSubstitutions :: "32 word list"
  Words :: "string list"
  NumWords :: int

definition pop_back_val :: "NodePointer list \<Rightarrow> NodePointer \<times> NodePointer list" where
  "pop_back_val NodeVector =
     (if NodeVector = [] then (None, NodeVector)
      else (last NodeVector, butlast NodeVector))"

definition nextIf_str :: "string \<Rightarrow> Demangler \<Rightarrow> bool \<times> Demangler" where
  "nextIf_str str D =
     (if \<not> startswith (substr (Text D) (Pos D)) str then (False, D)
      else (True, D\<lparr>Pos := Pos D + StringRef_size str\<rparr>))"

definition peekChar :: "Demangler \<Rightarrow> char" where
  "peekChar D =
     (if Pos D \<ge> StringRef_size (Text D) then CHR 0x00 else Text D ! unat (Pos D))"

definition nextChar :: "Demangler \<Rightarrow> char \<times> Demangler" where
  "nextChar D =
     (if Pos D \<ge> StringRef_size (Text D) then (CHR 0x00, D)
      else (Text D ! unat (Pos D), D\<lparr>Pos := Pos D + 1\<rparr>))"

definition nextIf_char :: "char \<Rightarrow> Demangler \<Rightarrow> bool \<times> Demangler" where
  "nextIf_char c D =
     (if peekChar D \<noteq> c then (False, D) else (True, D\<lparr>Pos := Pos D + 1\<rparr>))"

definition pushBack :: "Demangler \<Rightarrow> fault + Demangler" where
  "pushBack D = (if \<not> Pos D > 0 then Inl AssertionFailed else Inr (D\<lparr>Pos := Pos D - 1\<rparr>))"

definition pushNode :: "NodePointer \<Rightarrow> Demangler \<Rightarrow> Demangler" where
  "pushNode Nd D = D\<lparr>NodeStack := NodeStack D @ [NodeWithPos Nd (Pos D)]\<rparr>"

definition popNode :: "Demangler \<Rightarrow> NodePointer \<times> Demangler" where
  "popNode D =
     (if NodeStack D \<noteq> [] then (Node (last (NodeStack D)), D\<lparr>NodeStack := butlast (NodeStack D)\<rparr>)
      else (None, D))"

text \<open>
  \<open>popNode(Node::Kind)\<close> and \<open>popNode(Pred)\<close> call \<open>getKind\<close> through the pointer on
  top of the stack: a null pointer there is a fault.
\<close>

definition popNode_kind :: "Kind \<Rightarrow> Demangler \<Rightarrow> fault + (NodePointer \<times> Demangler)" where
  "popNode_kind kind D =
     (if NodeStack D = [] then Inr (None, D)
      else case Node (last (NodeStack D)) of
             None \<Rightarrow> Inl NullDereference
           | Some nd \<Rightarrow> if getKind nd \<noteq> kind then Inr (None, D) else Inr (popNode D))"

definition popNode_pred :: "(Kind \<Rightarrow> bool) \<Rightarrow> Demangler \<Rightarrow> fault + (NodePointer \<times> Demangler)" where
  "popNode_pred pred D =
     (if NodeStack D = [] then Inr (None, D)
      else case Node (last (NodeStack D)) of
             None \<Rightarrow> Inl NullDereference
           | Some nd \<Rightarrow> if \<not> pred (getKind nd) then Inr (None, D) else Inr (popNode D))"

definition addSubstitution :: "NodePointer \<Rightarrow> Demangler \<Rightarrow> Demangler" where
  "addSubstitution Nd D = (if Nd \<noteq> None then D\<lparr>Substitutions := Substitutions D @ [Nd]\<rparr> else D)"


text \<open>
  The constructor \<open>Demangler() {}\<close> with the default member initialisers.
\<close>

definition Demangler_init :: "size_t \<Rightarrow> (ptr \<Rightarrow> byte) \<Rightarrow> Demangler" where
  "Demangler_init sizeof_Node m =
     \<lparr>CurPtr = 0, End = 0, CurrentSlab = 0, SlabSize = 100 * sizeof_Node, memory = m,
      Text = [], Pos = 0, NodeStack = [], Substitutions = [], PendingSubstitutions = [],
      Words = replicate 26 [], NumWords = 0\<rparr>"

text \<open>
  The member functions the header defines, as the operations of a session, and their
  execution in sequence; a fault ends the session.
\<close>

datatype DemanglerOp =
    OpNextIfStr string
  | OpPeekChar
  | OpNextChar
  | OpNextIfChar char
  | OpPushBack
  | OpPushNode NodePointer
  | OpPopNode
  | OpPopNodeKind Kind
  | OpPopNodePred "Kind \<Rightarrow> bool"
  | OpAddSubstitution NodePointer
  | OpAllocate size_t size_t "size_t \<Rightarrow> ptr" size_t
  | OpReallocate size_t size_t "size_t \<Rightarrow> ptr" ptr size_t size_t

fun exec :: "DemanglerOp \<Rightarrow> Demangler \<Rightarrow> fault + Demangler" where
  "exec (OpNextIfStr str) D = Inr (snd (nextIf_str str D))"
| "exec OpPeekChar D = Inr D"
| "exec OpNextChar D = Inr (snd (nextChar D))"
| "exec (OpNextIfChar c) D = Inr (snd (nextIf_char c D))"
| "exec OpPushBack D = pushBack D"
| "exec (OpPushNode Nd) D = Inr (pushNode Nd D)"
| "exec OpPopNode D = Inr (snd (popNode D))"
| "exec (OpPopNodeKind kind) D =
     (case popNode_kind kind D of Inl e \<Rightarrow> Inl e | Inr (Nd, D1) \<Rightarrow> Inr D1)"
| "exec (OpPopNodePred pred) D =
     (case popNode_pred pred D of Inl e \<Rightarrow> Inl e | Inr (Nd, D1) \<Rightarrow> Inr D1)"
| "exec (OpAddSubstitution Nd) D = Inr (addSubstitution Nd D)"
| "exec (OpAllocate sizeofT alignofT malloc NumObjects) D =
     (case Allocate sizeofT alignofT malloc NumObjects D of
        Inl e \<Rightarrow> Inl e | Inr (p, D1) \<Rightarrow> Inr D1)"
| "exec (OpReallocate sizeofT alignofT malloc Objects Capacity MinGrowth) D =
     (case Reallocate sizeofT alignofT malloc Objects Capacity MinGrowth D of
        Inl e \<Rightarrow> Inl e | Inr (p, c, D1) \<Rightarrow> Inr D1)"

fun run :: "DemanglerOp list \<Rightarrow> Demangler \<Rightarrow> fault + Demangler" where
  "run [] D = Inr D"
| "run (op # ops) D = (case exec op D of Inl e \<Rightarrow> Inl e | Inr D1 \<Rightarrow> run ops D1)"

section \<open>Sequences of factory operations\<close>

text \<open>
  Modelled from the spec: \<open>NodeFactory::clear\<close> is declared in the header and defined
  in a source file that is not at hand.  The spec has it move the frontier back to the
  start of the most recently allocated slab and free all the slabs after that one in
  the chain, preserving the grown \<open>SlabSize\<close>; a factory without a slab has nothing to
  reset.
\<close>

definition clear :: "'a NodeFactory_scheme \<Rightarrow> 'a NodeFactory_scheme" where
  "clear F =
     (if CurrentSlab F \<noteq> 0
      then F\<lparr>CurPtr := CurrentSlab F + sizeof_Slab,
             memory := store_ptr (memory F) (CurrentSlab F) 0\<rparr>
      else F)"

text \<open>
  The growth \<open>Reallocate\<close> computes when it needs a new allocation, and the capacity of
  the slab \<open>Allocate\<close> asks for when an object of \<open>ObjectSize\<close> bytes does not fit.
\<close>

definition Growth_of :: "size_t \<Rightarrow> size_t \<Rightarrow> size_t" where
  "Growth_of Capacity MinGrowth =
     (let Growth0 = (if MinGrowth \<ge> 4 then MinGrowth else 4)
      in if Growth0 < Capacity * 2 then Capacity * 2 else Growth0)"

definition new_SlabSize :: "'a NodeFactory_scheme \<Rightarrow> size_t \<Rightarrow> size_t" where
  "new_SlabSize F ObjectSize = max (SlabSize F * 2) ObjectSize"

text \<open>
  The block \<open>malloc\<close> returns for that slab lies inside the address space with its
  header and all of the slab's capacity: neither \<open>sizeof(Slab) + SlabSize\<close> nor the end
  of the slab wraps around.
\<close>

definition slab_in_range :: "(size_t \<Rightarrow> ptr) \<Rightarrow> 'a NodeFactory_scheme \<Rightarrow> size_t \<Rightarrow> bool" where
  "slab_in_range malloc F ObjectSize \<longleftrightarrow>
     unat (malloc (sizeof_Slab + new_SlabSize F ObjectSize)) + unat sizeof_Slab
       + unat (new_SlabSize F ObjectSize) < 2 ^ 64"

datatype FactoryOp =
    FAllocate size_t size_t "size_t \<Rightarrow> ptr" size_t
  | FReallocate size_t size_t "size_t \<Rightarrow> ptr" ptr size_t size_t
  | FClear

fun fexec :: "FactoryOp \<Rightarrow> 'a NodeFactory_scheme \<Rightarrow> fault + 'a NodeFactory_scheme" where
  "fexec (FAllocate sizeofT alignofT malloc NumObjects) F =
     (case Allocate sizeofT alignofT malloc NumObjects F of
        Inl e \<Rightarrow> Inl e | Inr (p, F1) \<Rightarrow> Inr F1)"
| "fexec (FReallocate sizeofT alignofT malloc Objects Capacity MinGrowth) F =
     (case Reallocate sizeofT alignofT malloc Objects Capacity MinGrowth F of
        Inl e \<Rightarrow> Inl e | Inr (p, c, F1) \<Rightarrow> Inr F1)"
| "fexec FClear F = Inr (clear F)"

text \<open>The factories a sequence of operations goes through, up to its end or a fault.\<close>

fun trace :: "FactoryOp list \<Rightarrow> 'a NodeFactory_scheme \<Rightarrow> 'a NodeFactory_scheme list" where
  "trace [] F = [F]"
| "trace (op # ops) F = F # (case fexec op F of Inl e \<Rightarrow> [] | Inr F1 \<Rightarrow> trace ops F1)"

section \<open>Regions and requests\<close>

text \<open>
  An address lies in the block of \<open>len\<close> bytes at \<open>base\<close> when its offset from the base
  is below \<open>len\<close>.
\<close>

definition in_block :: "ptr \<Rightarrow> ptr \<Rightarrow> size_t \<Rightarrow> bool" where
  "in_block a base len \<longleftrightarrow> unat (a - base) < unat len"

text \<open>
  \<open>static_assert(alignof(T) <= alignof(Slab *))\<close>: an alignment of C++ is a power of
  two, so the template accepts 1, 2, 4 and 8.
\<close>

definition valid_alignof :: "size_t \<Rightarrow> bool" where
  "valid_alignof al \<longleftrightarrow> al = 1 \<or> al = 2 \<or> al = 4 \<or> al = 8"

text \<open>
  A request is a call \<open>Allocate<T>(NumObjects)\<close>: \<open>sizeof(T)\<close>, \<open>alignof(T)\<close>, the answer
  of \<open>malloc\<close> at that call, and \<open>NumObjects\<close>.  \<open>Allocate_all\<close> makes the calls in
  order and collects the regions returned, each with its base address and its size in
  bytes.
\<close>

type_synonym request = "size_t \<times> size_t \<times> (size_t \<Rightarrow> ptr) \<times> size_t"

fun Allocate_all ::
  "request list \<Rightarrow> 'a NodeFactory_scheme \<Rightarrow> fault + ((ptr \<times> size_t) list \<times> 'a NodeFactory_scheme)" where
  "Allocate_all [] F = Inr ([], F)"
| "Allocate_all ((sizeofT, alignofT, malloc, NumObjects) # rs) F =
     (case Allocate sizeofT alignofT malloc NumObjects F of
        Inl e \<Rightarrow> Inl e
      | Inr (p, F1) \<Rightarrow>
          (case Allocate_all rs F1 of
             Inl e \<Rightarrow> Inl e
           | Inr (ps, F2) \<Rightarrow> Inr ((p, NumObjects * sizeofT) # ps, F2)))"

text \<open>
  The total aligned size of a sequence of requests, in unbounded arithmetic: the
  address the frontier reaches from \<open>c\<close> when every request is rounded up to its
  alignment and served in place.
\<close>

definition roundup :: "nat \<Rightarrow> nat \<Rightarrow> nat" where
  "roundup c a = ((c + a - 1) div a) * a"

fun aligned_total :: "nat \<Rightarrow> request list \<Rightarrow> nat" where
  "aligned_total c [] = c"
| "aligned_total c ((sizeofT, alignofT, malloc, NumObjects) # rs) =
     aligned_total (roundup c (unat alignofT) + unat NumObjects * unat sizeofT) rs"

text \<open>
  The growth of \<open>Reallocate\<close> in unbounded arithmetic: at least \<open>MinGrowth\<close>, at least 4
  and at least twice the old capacity.
\<close>

definition ideal_Growth :: "nat \<Rightarrow> nat \<Rightarrow> nat" where
  "ideal_Growth Capacity MinGrowth = max (max MinGrowth 4) (2 * Capacity)"

text \<open>
  What \<open>malloc\<close> owes to a call that needs a slab for an object of \<open>ObjectSize\<close> bytes
  while the caller still holds the region of \<open>Old\<close> bytes at \<open>Objects\<close>: a non-null
  block, inside the address space with its header and the slab's capacity, aligned for
  \<open>T\<close> behind the header, and apart from the region the caller holds.
\<close>

definition malloc_fresh ::
  "(size_t \<Rightarrow> ptr) \<Rightarrow> size_t \<Rightarrow> 'a NodeFactory_scheme \<Rightarrow> size_t \<Rightarrow> ptr \<Rightarrow> size_t \<Rightarrow> bool" where
  "malloc_fresh malloc alignofT F ObjectSize Objects Old \<longleftrightarrow>
     (let SlabSize1 = new_SlabSize F ObjectSize;
          newSlab = malloc (sizeof_Slab + SlabSize1)
      in newSlab \<noteq> 0
         \<and> unat newSlab + unat sizeof_Slab + unat SlabSize1 < 2 ^ 64
         \<and> align (newSlab + sizeof_Slab) alignofT = newSlab + sizeof_Slab
         \<and> (unat Objects + unat Old \<le> unat newSlab
              \<or> unat newSlab + unat sizeof_Slab + unat SlabSize1 \<le> unat Objects))"

text \<open>
  The region of \<open>Old\<close> bytes at \<open>Objects\<close> is one the factory has handed out: it lies
  below the frontier (in the current slab or in a block at lower addresses) or in a
  block beyond the end of the current slab.
\<close>

definition region_held :: "'a NodeFactory_scheme \<Rightarrow> ptr \<Rightarrow> nat \<Rightarrow> bool" where
  "region_held F Objects Old \<longleftrightarrow>
     unat Objects + Old \<le> unat (CurPtr F)
     \<or> (unat (End F) \<le> unat Objects \<and> unat Objects + Old \<le> 2 ^ 64)"

section \<open>The word list and the entry points\<close>

text \<open>
  Modelled from the spec: the header declares \<open>MaxNumWords\<close>, \<open>Words\<close> and \<open>NumWords\<close>;
  the identifier production that records and resolves words is not part of the sources
  at hand.  The spec has a word list of fixed capacity 26, append-only; an index is
  valid when \<open>0 \<le> i < count\<close>; addressing beyond the count or beyond the capacity is a
  parse failure, and so is the attempt to record a 27th word.  A code is a letter whose
  ordinal position is the index.  \<open>None\<close> is the parse failure.
\<close>

definition recordWord :: "string \<Rightarrow> Demangler \<Rightarrow> Demangler option" where
  "recordWord word D =
     (if NumWords D < MaxNumWords
      then Some (D\<lparr>Words := (Words D)[nat (NumWords D) := word], NumWords := NumWords D + 1\<rparr>)
      else None)"

definition resolveWordIndex :: "int \<Rightarrow> Demangler \<Rightarrow> string option" where
  "resolveWordIndex i D =
     (if 0 \<le> i \<and> i < NumWords D \<and> i < MaxNumWords then Some (Words D ! nat i) else None)"

definition resolveWord :: "char \<Rightarrow> Demangler \<Rightarrow> string option" where
  "resolveWord L D =
     (if of_char L \<ge> (of_char CHR ''A'' :: nat) \<and> of_char L \<le> (of_char CHR ''Z'' :: nat)
      then resolveWordIndex (int (of_char L) - int (of_char CHR ''A'')) D
      else None)"

fun recordWords :: "string list \<Rightarrow> Demangler \<Rightarrow> Demangler option" where
  "recordWords [] D = Some D"
| "recordWords (word # ws) D =
     (case recordWord word D of None \<Rightarrow> None | Some D1 \<Rightarrow> recordWords ws D1)"

text \<open>
  Modelled from the spec: \<open>init\<close>, \<open>parseAndPushNodes\<close>, \<open>demangleSymbol\<close> and
  \<open>demangleType\<close> are declared in the header and defined in a source file that is not
  at hand, and so are the operator dispatcher and the productions.  The spec has an
  entry point initialise the cursor, the stack and the caches, then dispatch on the
  next input token until the input is exhausted, pushing each node produced; after the
  loop, success requires exactly one node on the stack, and any other depth, or a null
  returned from the outermost production, is a parse failure.  The two entry points
  differ in the starting production and in the prefix, which \<open>demangleSymbol\<close> expects
  (\<open>_T0\<close> in the header's comment).  The dispatcher is a parameter; the loop returns
  whether no production returned null, and has no value when it does not end.
\<close>

definition init :: "string \<Rightarrow> Demangler \<Rightarrow> Demangler" where
  "init MangledName D =
     D\<lparr>Text := MangledName, Pos := 0, NodeStack := [], Substitutions := [],
       PendingSubstitutions := [], Words := replicate 26 [], NumWords := 0\<rparr>"

partial_function (option) parseAndPushNodes ::
  "(Demangler \<Rightarrow> NodePointer \<times> Demangler) \<Rightarrow> Demangler \<Rightarrow> (bool \<times> Demangler) option" where
  "parseAndPushNodes demangleOperator D =
     (if Pos D \<ge> StringRef_size (Text D) then Some (True, D)
      else case demangleOperator D of
             (None, D1) \<Rightarrow> Some (False, D1)
           | (Some nd, D1) \<Rightarrow> parseAndPushNodes demangleOperator (pushNode (Some nd) D1))"

definition topLevel :: "bool \<times> Demangler \<Rightarrow> NodePointer \<times> Demangler" where
  "topLevel r =
     (case r of (ok, D) \<Rightarrow>
        if ok \<and> length (NodeStack D) = 1 then (Node (last (NodeStack D)), D) else (None, D))"

definition demangleType ::
  "(Demangler \<Rightarrow> NodePointer \<times> Demangler) \<Rightarrow> string \<Rightarrow> Demangler
     \<Rightarrow> (NodePointer \<times> Demangler) option" where
  "demangleType demangleOperator MangledName D =
     map_option topLevel (parseAndPushNodes demangleOperator (init MangledName D))"

definition demangleSymbol ::
  "(Demangler \<Rightarrow> NodePointer \<times> Demangler) \<Rightarrow> string \<Rightarrow> Demangler
     \<Rightarrow> (NodePointer \<times> Demangler) option" where
  "demangleSymbol demangleOperator MangledName D =
     (case nextIf_str ''_T0'' (init MangledName D) of
        (False, D1) \<Rightarrow> Some (None, D1)
      | (True, D1) \<Rightarrow> map_option topLevel (parseAndPushNodes demangleOperator D1))"

text \<open>
  The invariant of the word list, and the dispatchers that consume input: whenever one
  returns a node with input left, it has kept the text and moved the cursor forward.
\<close>

definition words_inv :: "Demangler \<Rightarrow> bool" where
  "words_inv D \<longleftrightarrow> 0 \<le> NumWords D \<and> NumWords D \<le> MaxNumWords \<and> length (Words D) = 26"

definition consumes_input :: "(Demangler \<Rightarrow> NodePointer \<times> Demangler) \<Rightarrow> bool" where
  "consumes_input demangleOperator \<longleftrightarrow>
     (\<forall>D nd D1. Pos D < StringRef_size (Text D) \<and> demangleOperator D = (Some nd, D1)
        \<longrightarrow> Text D1 = Text D \<and> Pos D < Pos D1)"

section \<open>Properties of the cursor and the stacks\<close>

lemma StringRef_size_unat: "length str < 2 ^ 64 \<Longrightarrow> unat (StringRef_size str) = length str"
  by (simp add: StringRef_size_def unat_of_nat)

lemma substr_drop:
  assumes "length str < 2 ^ 64"
  shows "substr str Start = drop (unat Start) str"
proof (cases "Start \<le> StringRef_size str")
  case True
  then show ?thesis by (simp add: substr_def min_def)
next
  case False
  then have "length str \<le> unat Start"
    using StringRef_size_unat [OF assms] by (simp add: word_le_nat_alt)
  with False show ?thesis
    using StringRef_size_unat [OF assms] by (simp add: substr_def min_def)
qed

lemma startswith_take: "startswith str Prefix \<longleftrightarrow> take (length Prefix) str = Prefix"
proof -
  have "length Prefix \<le> length str" if "take (length Prefix) str = Prefix"
    using arg_cong [OF that, of length] by simp
  then show ?thesis by (auto simp: startswith_def)
qed

text \<open>
  Claim C6, as the code has it.  On an empty node stack \<open>popNode()\<close>, \<open>popNode(kind)\<close> and the predicate
  overload return null and leave the demangler as it is.  \<open>popNode()\<close> on a non-empty
  stack returns the node of the last entry and removes that entry only.  When the top
  entry holds a node, \<open>popNode(kind)\<close> and \<open>popNode(pred)\<close> return null without any
  change if the node's kind fails the check, and otherwise return the node and remove
  that entry only.
\<close>

theorem popNode_variants:
  "(NodeStack D = [] \<longrightarrow>
      popNode D = (None, D) \<and> popNode_kind kind D = Inr (None, D) \<and> popNode_pred pred D = Inr (None, D))
   \<and> (NodeStack D = st @ [NodeWithPos Nd p] \<longrightarrow> popNode D = (Nd, D\<lparr>NodeStack := st\<rparr>))
   \<and> (NodeStack D = st @ [NodeWithPos (Some nd) p] \<longrightarrow>
        popNode_kind kind D =
          (if getKind nd \<noteq> kind then Inr (None, D) else Inr (Some nd, D\<lparr>NodeStack := st\<rparr>)) \<and>
        popNode_pred pred D =
          (if \<not> pred (getKind nd) then Inr (None, D) else Inr (Some nd, D\<lparr>NodeStack := st\<rparr>)))"
  by (simp add: popNode_def popNode_kind_def popNode_pred_def)

theorem popNode_variants_witness:
  "NodeStack (Demangler_init 24 (\<lambda>a. 0)) = []
   \<and> popNode_kind 7 (Demangler_init 24 (\<lambda>a. 0)) = Inr (None, Demangler_init 24 (\<lambda>a. 0))
   \<and> NodeStack (pushNode (Some (MkNode 7 NoPayload [])) (Demangler_init 24 (\<lambda>a. 0)))
        = [] @ [NodeWithPos (Some (MkNode 7 NoPayload [])) 0]
   \<and> popNode_kind 7 (pushNode (Some (MkNode 7 NoPayload [])) (Demangler_init 24 (\<lambda>a. 0)))
        = Inr (Some (MkNode 7 NoPayload []),
               (pushNode (Some (MkNode 7 NoPayload [])) (Demangler_init 24 (\<lambda>a. 0)))\<lparr>NodeStack := []\<rparr>)
   \<and> popNode_pred (\<lambda>k. k = 8) (pushNode (Some (MkNode 7 NoPayload [])) (Demangler_init 24 (\<lambda>a. 0)))
        = Inr (None, pushNode (Some (MkNode 7 NoPayload [])) (Demangler_init 24 (\<lambda>a. 0)))"
proof -
  have e: "NodeStack (Demangler_init 24 (\<lambda>a. 0)) = []"
    by (simp add: Demangler_init_def)
  have p: "NodeStack (pushNode (Some (MkNode 7 NoPayload [])) (Demangler_init 24 (\<lambda>a. 0)))
        = [] @ [NodeWithPos (Some (MkNode 7 NoPayload [])) 0]"
    by (simp add: Demangler_init_def pushNode_def)
  show ?thesis
    using e p
      popNode_variants [where D = "Demangler_init 24 (\<lambda>a. 0)" and kind = 7]
      popNode_variants [where D = "pushNode (Some (MkNode 7 NoPayload [])) (Demangler_init 24 (\<lambda>a. 0))"
        and st = "[]" and Nd = "Some (MkNode 7 NoPayload [])" and p = 0
        and nd = "MkNode 7 NoPayload []" and kind = 7 and pred = "\<lambda>k. k = 8"]
    by simp
qed

text \<open>
  A null pointer on top of the stack is dereferenced by the two checking overloads:
  \<open>pushNode\<close> accepts a null pointer, and after \<open>pushNode(nullptr)\<close> on a new demangler
  \<open>popNode(kind)\<close> and the predicate overload neither return null with the stack
  unchanged nor pop the entry.
\<close>

lemma popNode_kind_null_top:
  "NodeStack D = st @ [NodeWithPos None p] \<Longrightarrow>
     popNode_kind kind D = Inl NullDereference \<and> popNode_pred pred D = Inl NullDereference"
  by (simp add: popNode_kind_def popNode_pred_def)

theorem popNode_checks_null_top:
  "NodeStack (pushNode None (Demangler_init 24 (\<lambda>a. 0))) = [NodeWithPos None 0]
   \<and> popNode_kind 7 (pushNode None (Demangler_init 24 (\<lambda>a. 0))) = Inl NullDereference
   \<and> popNode_pred (\<lambda>k. k = 7) (pushNode None (Demangler_init 24 (\<lambda>a. 0)))
        = Inl NullDereference"
  by (simp add: popNode_kind_def popNode_pred_def pushNode_def Demangler_init_def)

text \<open>
  Claim C7, as the code has it.  The text is a \<open>StringRef\<close>, so its length fits in
  \<open>size_t\<close>.  \<open>nextIf(str)\<close> returns true and moves \<open>Pos\<close> forward by the length of
  \<open>str\<close> (without wrapping) when the text from \<open>Pos\<close> on starts with \<open>str\<close>, and
  returns false with the demangler unchanged otherwise.  \<open>nextIf(c)\<close> does what
  \<open>nextIf\<close> does on the one-character string \<open>c\<close> whenever \<open>c\<close> is not the NUL
  character or the cursor is inside the text.
\<close>

theorem nextIf_advances:
  assumes "length (Text D) < 2 ^ 64"
  shows "nextIf_str str D =
           (if take (length str) (drop (unat (Pos D)) (Text D)) = str
            then (True, D\<lparr>Pos := Pos D + of_nat (length str)\<rparr>) else (False, D))
       \<and> (take (length str) (drop (unat (Pos D)) (Text D)) = str \<longrightarrow>
            unat (Pos D + of_nat (length str)) = unat (Pos D) + length str)
       \<and> (c \<noteq> CHR 0x00 \<or> unat (Pos D) < length (Text D) \<longrightarrow>
            nextIf_char c D = nextIf_str [c] D)"
proof -
  note sz = StringRef_size_unat [OF assms]
  have one: "nextIf_str str D =
           (if take (length str) (drop (unat (Pos D)) (Text D)) = str
            then (True, D\<lparr>Pos := Pos D + of_nat (length str)\<rparr>) else (False, D))" for str
    by (simp add: nextIf_str_def substr_drop [OF assms] startswith_take StringRef_size_def)
  have two: "unat (Pos D + of_nat (length str)) = unat (Pos D) + length str"
    if t: "take (length str) (drop (unat (Pos D)) (Text D)) = str"
  proof (cases "str = []")
    case True
    then show ?thesis by simp
  next
    case False
    from arg_cong [OF t, of length]
    have "length str = min (length str) (length (Text D) - unat (Pos D))"
      by simp
    then have "unat (Pos D) + length str \<le> length (Text D)"
      using False by (cases str) auto
    with assms show ?thesis
      by (simp add: unat_word_ariths unat_of_nat)
  qed
  have three: "nextIf_char c D = nextIf_str [c] D"
    if "c \<noteq> CHR 0x00 \<or> unat (Pos D) < length (Text D)"
  proof (cases "unat (Pos D) < length (Text D)")
    case True
    then have "\<not> StringRef_size (Text D) \<le> Pos D"
      using sz by (simp add: word_le_nat_alt)
    moreover from True have "take (Suc 0) (drop (unat (Pos D)) (Text D)) = [Text D ! unat (Pos D)]"
      by (simp add: take_Suc_conv_app_nth Cons_nth_drop_Suc [symmetric])
    ultimately show ?thesis
      by (auto simp: one nextIf_char_def peekChar_def)
  next
    case False
    then have "StringRef_size (Text D) \<le> Pos D"
      using sz by (simp add: word_le_nat_alt)
    with False that show ?thesis
      by (auto simp: one nextIf_char_def peekChar_def)
  qed
  show ?thesis using one two three by blast
qed

theorem nextIf_advances_witness:
  "length (Text ((Demangler_init 24 (\<lambda>a. 0))\<lparr>Text := ''_T0Si''\<rparr>)) < 2 ^ 64
   \<and> nextIf_str ''_T0'' ((Demangler_init 24 (\<lambda>a. 0))\<lparr>Text := ''_T0Si''\<rparr>)
        = (True, (Demangler_init 24 (\<lambda>a. 0))\<lparr>Text := ''_T0Si'', Pos := 3\<rparr>)
   \<and> nextIf_str ''_S'' ((Demangler_init 24 (\<lambda>a. 0))\<lparr>Text := ''_T0Si''\<rparr>)
        = (False, (Demangler_init 24 (\<lambda>a. 0))\<lparr>Text := ''_T0Si''\<rparr>)
   \<and> nextIf_char CHR ''_'' ((Demangler_init 24 (\<lambda>a. 0))\<lparr>Text := ''_T0Si''\<rparr>)
        = (True, (Demangler_init 24 (\<lambda>a. 0))\<lparr>Text := ''_T0Si'', Pos := 1\<rparr>)"
  using nextIf_advances [where D = "(Demangler_init 24 (\<lambda>a. 0))\<lparr>Text := ''_T0Si''\<rparr>"
      and str = "''_T0''" and c = "CHR ''_''"]
    nextIf_advances [where D = "(Demangler_init 24 (\<lambda>a. 0))\<lparr>Text := ''_T0Si''\<rparr>"
      and str = "''_S''" and c = "CHR ''_''"]
    nextIf_advances [where D = "(Demangler_init 24 (\<lambda>a. 0))\<lparr>Text := ''_T0Si''\<rparr>"
      and str = "''_''" and c = "CHR ''_''"]
  by (simp add: Demangler_init_def)

text \<open>
  At the end of the text \<open>peekChar\<close> answers NUL, so \<open>nextIf('\\0')\<close> returns true
  and moves the cursor past the end, where the string overload refuses.
\<close>

theorem nextIf_char_NUL_at_end:
  "nextIf_char (CHR 0x00) (Demangler_init 24 (\<lambda>a. 0))
     = (True, (Demangler_init 24 (\<lambda>a. 0))\<lparr>Pos := 1\<rparr>)
   \<and> \<not> startswith (substr (Text (Demangler_init 24 (\<lambda>a. 0))) (Pos (Demangler_init 24 (\<lambda>a. 0)))) [CHR 0x00]
   \<and> nextIf_str [CHR 0x00] (Demangler_init 24 (\<lambda>a. 0)) = (False, Demangler_init 24 (\<lambda>a. 0))"
  by (simp add: nextIf_char_def nextIf_str_def peekChar_def Demangler_init_def StringRef_size_def
      startswith_def substr_def)

text \<open>
  Claim C8.  The text is a \<open>StringRef\<close>, so its length fits in \<open>size_t\<close>.  With the
  cursor at or beyond the end, \<open>peekChar\<close> and \<open>nextChar\<close> return NUL and \<open>nextChar\<close>
  leaves the demangler unchanged; inside the text both return the character under the
  cursor, read within the bounds, and \<open>nextChar\<close> moves the cursor by one; hence a
  cursor that does not exceed the length of the text does not exceed it after
  \<open>nextChar\<close>.
\<close>

theorem peekChar_nextChar_total:
  assumes "length (Text D) < 2 ^ 64"
  shows "(length (Text D) \<le> unat (Pos D) \<longrightarrow> peekChar D = CHR 0x00 \<and> nextChar D = (CHR 0x00, D))
       \<and> (unat (Pos D) < length (Text D) \<longrightarrow>
            peekChar D = Text D ! unat (Pos D) \<and>
            nextChar D = (Text D ! unat (Pos D), D\<lparr>Pos := Pos D + 1\<rparr>) \<and>
            unat (Pos D + 1) = unat (Pos D) + 1)
       \<and> (unat (Pos D) \<le> length (Text D) \<longrightarrow> unat (Pos (snd (nextChar D))) \<le> length (Text D))"
proof -
  note sz = StringRef_size_unat [OF assms]
  have a: "StringRef_size (Text D) \<le> Pos D \<longleftrightarrow> length (Text D) \<le> unat (Pos D)"
    using sz by (simp add: word_le_nat_alt)
  have b: "unat (Pos D + 1) = unat (Pos D) + 1" if "unat (Pos D) < length (Text D)"
    using that assms by (simp add: unat_word_ariths)
  show ?thesis
    using a b by (auto simp: peekChar_def nextChar_def)
qed

theorem peekChar_nextChar_total_witness:
  "length (Text ((Demangler_init 24 (\<lambda>a. 0))\<lparr>Text := ''Si'', Pos := 2\<rparr>)) < 2 ^ 64
   \<and> length (Text ((Demangler_init 24 (\<lambda>a. 0))\<lparr>Text := ''Si'', Pos := 2\<rparr>))
        \<le> unat (Pos ((Demangler_init 24 (\<lambda>a. 0))\<lparr>Text := ''Si'', Pos := 2\<rparr>))
   \<and> nextChar ((Demangler_init 24 (\<lambda>a. 0))\<lparr>Text := ''Si'', Pos := 2\<rparr>)
        = (CHR 0x00, (Demangler_init 24 (\<lambda>a. 0))\<lparr>Text := ''Si'', Pos := 2\<rparr>)
   \<and> unat (Pos ((Demangler_init 24 (\<lambda>a. 0))\<lparr>Text := ''Si'', Pos := 1\<rparr>))
        < length (Text ((Demangler_init 24 (\<lambda>a. 0))\<lparr>Text := ''Si'', Pos := 1\<rparr>))
   \<and> nextChar ((Demangler_init 24 (\<lambda>a. 0))\<lparr>Text := ''Si'', Pos := 1\<rparr>)
        = (CHR ''i'', (Demangler_init 24 (\<lambda>a. 0))\<lparr>Text := ''Si'', Pos := 2\<rparr>)"
  using peekChar_nextChar_total [of "(Demangler_init 24 (\<lambda>a. 0))\<lparr>Text := ''Si'', Pos := 2\<rparr>"]
    peekChar_nextChar_total [of "(Demangler_init 24 (\<lambda>a. 0))\<lparr>Text := ''Si'', Pos := 1\<rparr>"]
  by (simp add: Demangler_init_def)

lemma Substitutions_Allocate:
  "Allocate sz al malloc n D = Inr (p, D1) \<Longrightarrow> Substitutions D1 = Substitutions (D::Demangler)"
  by (auto simp: Allocate_def Let_def split: if_splits)

lemma Substitutions_Reallocate:
  "Reallocate sz al malloc Objects Capacity MinGrowth D = Inr (p, c, D1)
     \<Longrightarrow> Substitutions D1 = Substitutions (D::Demangler)"
  by (auto simp: Reallocate_def Let_def split: if_splits sum.splits dest: Substitutions_Allocate)

lemma Substitutions_exec:
  "exec op D = Inr D1 \<Longrightarrow>
     Substitutions D1 = Substitutions D \<or> (\<exists>nd. Substitutions D1 = Substitutions D @ [Some nd])"
  by (cases op)
     (auto simp: nextIf_str_def nextChar_def nextIf_char_def pushBack_def pushNode_def popNode_def
         popNode_kind_def popNode_pred_def addSubstitution_def
         split: if_splits option.splits sum.splits
         dest: Substitutions_Allocate Substitutions_Reallocate)

text \<open>
  Claim C10.  \<open>addSubstitution(Nd)\<close> appends \<open>Nd\<close> to the substitution list when it is
  not null and changes nothing when it is null.  It keeps the list free of null entries,
  and so does every sequence of the operations of a session that ends without a fault.
\<close>

theorem addSubstitution_no_null:
  "addSubstitution Nd D = (if Nd = None then D else D\<lparr>Substitutions := Substitutions D @ [Nd]\<rparr>)
   \<and> (None \<notin> set (Substitutions D) \<longrightarrow> None \<notin> set (Substitutions (addSubstitution Nd D)))
   \<and> (None \<notin> set (Substitutions D) \<and> run ops D = Inr D1 \<longrightarrow> None \<notin> set (Substitutions D1))"
proof -
  have step: "None \<notin> set (Substitutions D1)"
    if "None \<notin> set (Substitutions D)" "run ops D = Inr D1" for D D1
    using that
  proof (induction ops arbitrary: D)
    case Nil
    then show ?case by simp
  next
    case (Cons op ops)
    from Cons.prems(2) obtain D2 where e: "exec op D = Inr D2" and r: "run ops D2 = Inr D1"
      by (auto split: sum.splits)
    from Substitutions_exec [OF e] Cons.prems(1) have "None \<notin> set (Substitutions D2)"
      by auto
    with r show ?case by (rule Cons.IH [rotated -1]) 
  qed
  show ?thesis
    using step by (auto simp: addSubstitution_def)
qed

theorem addSubstitution_no_null_witness:
  "None \<notin> set (Substitutions (Demangler_init 24 (\<lambda>a. 0)))
   \<and> run [OpAddSubstitution None, OpAddSubstitution (Some (MkNode 7 NoPayload []))]
        (Demangler_init 24 (\<lambda>a. 0))
      = Inr ((Demangler_init 24 (\<lambda>a. 0))\<lparr>Substitutions := [Some (MkNode 7 NoPayload [])]\<rparr>)
   \<and> None \<notin> set (Substitutions
        ((Demangler_init 24 (\<lambda>a. 0))\<lparr>Substitutions := [Some (MkNode 7 NoPayload [])]\<rparr>))"
proof -
  have r: "run [OpAddSubstitution None, OpAddSubstitution (Some (MkNode 7 NoPayload []))]
        (Demangler_init 24 (\<lambda>a. 0))
      = Inr ((Demangler_init 24 (\<lambda>a. 0))\<lparr>Substitutions := [Some (MkNode 7 NoPayload [])]\<rparr>)"
    by (simp add: addSubstitution_def Demangler_init_def)
  have e: "None \<notin> set (Substitutions (Demangler_init 24 (\<lambda>a. 0)))"
    by (simp add: Demangler_init_def)
  from e r addSubstitution_no_null [where Nd = None and D = "Demangler_init 24 (\<lambda>a. 0)"
      and ops = "[OpAddSubstitution None, OpAddSubstitution (Some (MkNode 7 NoPayload []))]"
      and ?D1.0 = "(Demangler_init 24 (\<lambda>a. 0))\<lparr>Substitutions := [Some (MkNode 7 NoPayload [])]\<rparr>"]
  show ?thesis by blast
qed

section \<open>Properties of the node factory\<close>

lemma Allocate_Inr:
  assumes "Allocate sz al malloc n F = Inr (p, F1)"
  shows "al \<noteq> 0 \<and>
    ((\<not> End F < align (CurPtr F) al + n * sz \<and> p = align (CurPtr F) al
        \<and> F1 = F\<lparr>CurPtr := p + n * sz\<rparr>)
     \<or> (End F < align (CurPtr F) al + n * sz
        \<and> malloc (sizeof_Slab + new_SlabSize F (n * sz)) \<noteq> 0
        \<and> p = malloc (sizeof_Slab + new_SlabSize F (n * sz)) + sizeof_Slab
        \<and> align p al = p
        \<and> F1 = F\<lparr>CurPtr := p + n * sz, End := p + new_SlabSize F (n * sz),
                 CurrentSlab := malloc (sizeof_Slab + new_SlabSize F (n * sz)),
                 SlabSize := new_SlabSize F (n * sz),
                 memory := store_ptr (memory F)
                   (malloc (sizeof_Slab + new_SlabSize F (n * sz))) (CurrentSlab F)\<rparr>))"
  using assms
  by (auto simp: Allocate_def Let_def new_SlabSize_def split: if_splits)

lemma Reallocate_Inr:
  assumes "Reallocate sz al malloc Objects Capacity MinGrowth F = Inr (p, c, F2)"
  shows "(Objects + Capacity * sz = CurPtr F \<and> CurPtr F + MinGrowth * sz \<le> End F
          \<and> p = Objects \<and> c = Capacity + MinGrowth \<and> F2 = F\<lparr>CurPtr := CurPtr F + MinGrowth * sz\<rparr>)
       \<or> (\<not> (Objects + Capacity * sz = CurPtr F \<and> CurPtr F + MinGrowth * sz \<le> End F)
          \<and> c = Capacity + Growth_of Capacity MinGrowth
          \<and> (\<exists>F1. Allocate sz al malloc (Capacity + Growth_of Capacity MinGrowth) F = Inr (p, F1)
                \<and> F2 = F1\<lparr>memory := memcpy (memory F1) p Objects (Capacity * sz)\<rparr>))"
  using assms
  by (auto simp: Reallocate_def Let_def Growth_of_def split: if_splits sum.splits)

lemma slab_end_no_wrap:
  assumes "unat ns + unat sizeof_Slab + unat S < 2 ^ 64" "O' \<le> S"
  shows "ns + sizeof_Slab + O' \<le> ns + sizeof_Slab + S"
proof -
  have a: "unat (ns + sizeof_Slab) = unat ns + unat sizeof_Slab"
    using assms(1) by (simp add: unat_add_lem [THEN iffD1])
  have b: "unat (ns + sizeof_Slab + S) = unat ns + unat sizeof_Slab + unat S"
    using assms(1) a by (simp add: unat_add_lem [THEN iffD1])
  have c: "unat O' \<le> unat S" using assms(2) by (simp add: word_le_nat_alt)
  have d: "unat (ns + sizeof_Slab + O') = unat ns + unat sizeof_Slab + unat O'"
    using assms(1) a c by (simp add: unat_add_lem [THEN iffD1])
  show ?thesis using b c d by (simp add: word_le_nat_alt)
qed

lemma Allocate_CurPtr_le_End:
  assumes "Allocate sz al malloc n F = Inr (p, F1)"
    "End F < align (CurPtr F) al + n * sz \<longrightarrow> slab_in_range malloc F (n * sz)"
  shows "CurPtr F1 \<le> End F1"
proof -
  from Allocate_Inr [OF assms(1)] show ?thesis
  proof (elim conjE disjE)
    assume "\<not> End F < align (CurPtr F) al + n * sz" "p = align (CurPtr F) al"
      "F1 = F\<lparr>CurPtr := p + n * sz\<rparr>"
    then show ?thesis by (simp add: not_less)
  next
    assume new: "End F < align (CurPtr F) al + n * sz"
      and p: "p = malloc (sizeof_Slab + new_SlabSize F (n * sz)) + sizeof_Slab"
      and F1: "F1 = F\<lparr>CurPtr := p + n * sz, End := p + new_SlabSize F (n * sz),
                 CurrentSlab := malloc (sizeof_Slab + new_SlabSize F (n * sz)),
                 SlabSize := new_SlabSize F (n * sz),
                 memory := store_ptr (memory F)
                   (malloc (sizeof_Slab + new_SlabSize F (n * sz))) (CurrentSlab F)\<rparr>"
    have "n * sz \<le> new_SlabSize F (n * sz)" by (simp add: new_SlabSize_def)
    moreover from assms(2) new have "slab_in_range malloc F (n * sz)" by simp
    ultimately show ?thesis
      using slab_end_no_wrap [of "malloc (sizeof_Slab + new_SlabSize F (n * sz))"
          "new_SlabSize F (n * sz)" "n * sz"]
      by (simp add: F1 p slab_in_range_def)
  qed
qed

lemma Reallocate_CurPtr_le_End:
  assumes "Reallocate sz al malloc Objects Capacity MinGrowth F = Inr (p, c, F2)"
    "\<not> (Objects + Capacity * sz = CurPtr F \<and> CurPtr F + MinGrowth * sz \<le> End F)
     \<and> End F < align (CurPtr F) al + (Capacity + Growth_of Capacity MinGrowth) * sz
       \<longrightarrow> slab_in_range malloc F ((Capacity + Growth_of Capacity MinGrowth) * sz)"
  shows "CurPtr F2 \<le> End F2"
  using Reallocate_Inr [OF assms(1)] assms(2)
  by (auto dest: Allocate_CurPtr_le_End)

text \<open>
  Where the sizes do not wrap, the frontier stays in the slab.  After a call of
  \<open>Allocate\<close> that returns, \<open>CurPtr\<close> does not exceed \<open>End\<close>, provided that the slab
  the call allocates, if it allocates one, lies inside the address space with its header
  and its \<open>SlabSize\<close> bytes; the same holds after a call of \<open>Reallocate\<close> that returns,
  for the slab its allocation of \<open>Capacity + Growth\<close> elements allocates, if any.  A
  call that stays in the current slab, and a \<open>Reallocate\<close> that grows in place, need
  no proviso: there the comparison in the code gives the bound.
\<close>

theorem frontier_within_slab:
  "(Allocate sz al malloc n F = Inr (p, F1)
      \<and> (End F < align (CurPtr F) al + n * sz \<longrightarrow> slab_in_range malloc F (n * sz))
      \<longrightarrow> CurPtr F1 \<le> End F1)
   \<and> (Reallocate sz al malloc Objects Capacity MinGrowth F = Inr (q, c, F2)
        \<and> (\<not> (Objects + Capacity * sz = CurPtr F \<and> CurPtr F + MinGrowth * sz \<le> End F)
             \<and> End F < align (CurPtr F) al + (Capacity + Growth_of Capacity MinGrowth) * sz
             \<longrightarrow> slab_in_range malloc F ((Capacity + Growth_of Capacity MinGrowth) * sz))
      \<longrightarrow> CurPtr F2 \<le> End F2)"
  using Allocate_CurPtr_le_End Reallocate_CurPtr_le_End by blast

theorem frontier_within_slab_witness:
  "Allocate 24 8 (\<lambda>size. 4096) 1 (NodeFactory_init 24 (\<lambda>a. 0))
     = Inr (4104, (NodeFactory_init 24 (\<lambda>a. 0))
          \<lparr>CurPtr := 4128, End := 8904, CurrentSlab := 4096, SlabSize := 4800,
           memory := store_ptr (\<lambda>a. 0) 4096 0\<rparr>)
   \<and> slab_in_range (\<lambda>size. 4096) (NodeFactory_init 24 (\<lambda>a. 0)) (1 * 24)
   \<and> CurPtr ((NodeFactory_init 24 (\<lambda>a. 0))
          \<lparr>CurPtr := 4128, End := 8904, CurrentSlab := 4096, SlabSize := 4800,
           memory := store_ptr (\<lambda>a. 0) 4096 0\<rparr>)
      \<le> End ((NodeFactory_init 24 (\<lambda>a. 0))
          \<lparr>CurPtr := 4128, End := 8904, CurrentSlab := 4096, SlabSize := 4800,
           memory := store_ptr (\<lambda>a. 0) 4096 0\<rparr>)
   \<and> Reallocate 24 8 (\<lambda>size. 4096) 0 0 1 (NodeFactory_init 24 (\<lambda>a. 0))
     = Inr (4104, 4, (NodeFactory_init 24 (\<lambda>a. 0))
          \<lparr>CurPtr := 4200, End := 8904, CurrentSlab := 4096, SlabSize := 4800,
           memory := memcpy (store_ptr (\<lambda>a. 0) 4096 0) 4104 0 0\<rparr>)
   \<and> slab_in_range (\<lambda>size. 4096) (NodeFactory_init 24 (\<lambda>a. 0)) ((0 + Growth_of 0 1) * 24)
   \<and> CurPtr ((NodeFactory_init 24 (\<lambda>a. 0))
          \<lparr>CurPtr := 4200, End := 8904, CurrentSlab := 4096, SlabSize := 4800,
           memory := memcpy (store_ptr (\<lambda>a. 0) 4096 0) 4104 0 0\<rparr>)
      \<le> End ((NodeFactory_init 24 (\<lambda>a. 0))
          \<lparr>CurPtr := 4200, End := 8904, CurrentSlab := 4096, SlabSize := 4800,
           memory := memcpy (store_ptr (\<lambda>a. 0) 4096 0) 4104 0 0\<rparr>)"
proof -
  have a: "Allocate 24 8 (\<lambda>size. 4096) 1 (NodeFactory_init 24 (\<lambda>a. 0))
     = Inr (4104, (NodeFactory_init 24 (\<lambda>a. 0))
          \<lparr>CurPtr := 4128, End := 8904, CurrentSlab := 4096, SlabSize := 4800,
           memory := store_ptr (\<lambda>a. 0) 4096 0\<rparr>)"
    by (simp add: NodeFactory_init_def Allocate_def align_def sizeof_Slab_def Let_def
        word_less_nat_alt word_le_nat_alt max_def)
  have b: "slab_in_range (\<lambda>size. 4096) (NodeFactory_init 24 (\<lambda>a. 0)) (1 * 24)"
    by (simp add: slab_in_range_def new_SlabSize_def NodeFactory_init_def sizeof_Slab_def max_def
        word_le_nat_alt)
  have c: "Reallocate 24 8 (\<lambda>size. 4096) 0 0 1 (NodeFactory_init 24 (\<lambda>a. 0))
     = Inr (4104, 4, (NodeFactory_init 24 (\<lambda>a. 0))
          \<lparr>CurPtr := 4200, End := 8904, CurrentSlab := 4096, SlabSize := 4800,
           memory := memcpy (store_ptr (\<lambda>a. 0) 4096 0) 4104 0 0\<rparr>)"
    by (simp add: Reallocate_def NodeFactory_init_def Allocate_def align_def sizeof_Slab_def Let_def
        word_less_nat_alt word_le_nat_alt max_def)
  have d: "slab_in_range (\<lambda>size. 4096) (NodeFactory_init 24 (\<lambda>a. 0)) ((0 + Growth_of 0 1) * 24)"
    by (simp add: slab_in_range_def new_SlabSize_def NodeFactory_init_def sizeof_Slab_def max_def
        word_le_nat_alt Growth_of_def word_less_nat_alt)
  from a b c d frontier_within_slab [where sz = 24 and al = 8 and malloc = "\<lambda>size. 4096" and n = 1
      and F = "NodeFactory_init 24 (\<lambda>a. 0)" and p = 4104
      and ?F1.0 = "(NodeFactory_init 24 (\<lambda>a. 0))
          \<lparr>CurPtr := 4128, End := 8904, CurrentSlab := 4096, SlabSize := 4800,
           memory := store_ptr (\<lambda>a. 0) 4096 0\<rparr>"
      and Objects = 0 and Capacity = 0 and MinGrowth = 1 and q = 4104 and c = 4
      and ?F2.0 = "(NodeFactory_init 24 (\<lambda>a. 0))
          \<lparr>CurPtr := 4200, End := 8904, CurrentSlab := 4096, SlabSize := 4800,
           memory := memcpy (store_ptr (\<lambda>a. 0) 4096 0) 4104 0 0\<rparr>"]
  show ?thesis by blast
qed

text \<open>
  Claim C5.  The frontier \<open>CurPtr\<close> never exceeds \<open>End\<close>, the end of the current slab,
  after a call of \<open>Allocate\<close> or \<open>Reallocate\<close>, for all object sizes; the members'
  comments say the same (\<open>Position in the current slab\<close>, \<open>The end of the current
  slab\<close>).  The code does not keep it: a fresh factory is asked for \<open>SIZE_MAX\<close> bytes
  of \<open>char\<close> and then for one byte.  \<open>sizeof(Slab) + SlabSize\<close> is computed without a
  check and wraps to 7 and then to 6, \<open>malloc\<close> serves both requests (at 4096 and at
  8192), \<open>End = CurPtr + SlabSize\<close> wraps as well, and the second call leaves the
  frontier three bytes beyond \<open>End\<close>.
\<close>

theorem frontier_beyond_slab_end:
  "map (\<lambda>G. (CurPtr G, End G))
       (trace [FAllocate 1 1 (\<lambda>size. 4096) 18446744073709551615, FAllocate 1 1 (\<lambda>size. 8192) 1]
          (NodeFactory_init 24 (\<lambda>a. 0)))
     = [(0, 0), (4103, 4103), (8201, 8198)]
   \<and> \<not> (8201 :: ptr) \<le> 8198"
  by (simp add: NodeFactory_init_def Allocate_def align_def sizeof_Slab_def Let_def
      word_less_nat_alt word_le_nat_alt max_def)

lemma SlabSize_double_le:
  fixes S :: size_t
  assumes "unat S * 2 < 2 ^ 64"
  shows "S \<le> max (S * 2) ObjSize"
proof -
  have "unat (S * 2) = unat S * 2"
    using assms unat_mult_lem [of S 2] by simp
  then have "S \<le> S * 2" by (simp add: word_le_nat_alt)
  then show ?thesis by (simp add: le_max_iff_disj)
qed

lemma SlabSize_Allocate:
  assumes "Allocate sz al malloc n F = Inr (p, F1)"
  shows "(\<not> End F < align (CurPtr F) al + n * sz
            \<and> CurrentSlab F1 = CurrentSlab F \<and> SlabSize F1 = SlabSize F)
         \<or> (End F < align (CurPtr F) al + n * sz
            \<and> CurrentSlab F1 = malloc (sizeof_Slab + max (SlabSize F * 2) (n * sz))
            \<and> SlabSize F1 = max (SlabSize F * 2) (n * sz))"
  using Allocate_Inr [OF assms] by (auto simp: new_SlabSize_def)

lemma SlabSize_Reallocate:
  assumes "Reallocate sz al malloc Objects Capacity MinGrowth F = Inr (p, c, F2)"
  shows "(CurrentSlab F2 = CurrentSlab F \<and> SlabSize F2 = SlabSize F)
       \<or> (End F < align (CurPtr F) al + (Capacity + Growth_of Capacity MinGrowth) * sz
          \<and> CurrentSlab F2
              = malloc (sizeof_Slab
                  + max (SlabSize F * 2) ((Capacity + Growth_of Capacity MinGrowth) * sz))
          \<and> SlabSize F2
              = max (SlabSize F * 2) ((Capacity + Growth_of Capacity MinGrowth) * sz))"
  using Reallocate_Inr [OF assms] by (auto dest: SlabSize_Allocate)

lemma SlabSize_clear: "SlabSize (clear F) = SlabSize F"
  by (simp add: clear_def)

lemma SlabSize_fexec:
  assumes "fexec op F = Inr F1" "unat (SlabSize F) * 2 < 2 ^ 64"
  shows "SlabSize F \<le> SlabSize F1"
proof (cases op)
  case (FAllocate sz al malloc n)
  with assms(1) obtain p where "Allocate sz al malloc n F = Inr (p, F1)"
    by (auto split: sum.splits)
  from SlabSize_Allocate [OF this] SlabSize_double_le [OF assms(2)] show ?thesis by auto
next
  case (FReallocate sz al malloc Objects Capacity MinGrowth)
  with assms(1) obtain p c where
    "Reallocate sz al malloc Objects Capacity MinGrowth F = Inr (p, c, F1)"
    by (auto split: sum.splits)
  from SlabSize_Reallocate [OF this] SlabSize_double_le [OF assms(2)] show ?thesis by auto
next
  case FClear
  with assms(1) show ?thesis by (auto simp: SlabSize_clear)
qed

lemma trace_hd: "\<exists>Fs. trace ops F = F # Fs"
  by (cases ops) auto

lemma SlabSize_trace_sorted:
  "\<forall>G \<in> set (trace ops F). unat (SlabSize G) * 2 < 2 ^ 64
     \<Longrightarrow> sorted (map SlabSize (trace ops F))"
proof (induction ops arbitrary: F)
  case Nil
  then show ?case by simp
next
  case (Cons op ops)
  show ?case
  proof (cases "fexec op F")
    case (Inl e)
    then show ?thesis by simp
  next
    case (Inr F1)
    from Cons.prems Inr have all: "\<forall>G \<in> set (trace ops F1). unat (SlabSize G) * 2 < 2 ^ 64"
      and F: "unat (SlabSize F) * 2 < 2 ^ 64"
      by auto
    from Cons.IH [OF all] have s: "sorted (map SlabSize (trace ops F1))" .
    obtain Fs where Fs: "trace ops F1 = F1 # Fs" using trace_hd by blast
    from SlabSize_fexec [OF Inr F] have le: "SlabSize F \<le> SlabSize F1" .
    from s Fs have "\<forall>G \<in> set (trace ops F1). SlabSize F1 \<le> SlabSize G"
      by auto
    with le have "\<forall>G \<in> set (trace ops F1). SlabSize F \<le> SlabSize G"
      by (meson order_trans)
    with s Inr show ?thesis by simp
  qed
qed

text \<open>
  Where the doubling does not wrap, the slab size only grows.  A call of \<open>Allocate\<close>
  that returns either stays in the current slab and leaves \<open>SlabSize\<close> as it is, or
  allocates a slab and sets \<open>SlabSize\<close> to the maximum of \<open>2 * SlabSize\<close> (in
  \<open>size_t\<close>) and the requested size; so does the allocation inside \<open>Reallocate\<close>;
  \<open>clear\<close> leaves \<open>SlabSize\<close> as it is.  An operation started with \<open>2 * SlabSize\<close>
  representable in \<open>size_t\<close> does not decrease \<open>SlabSize\<close>, and along a sequence of
  operations in which that bound holds throughout, \<open>SlabSize\<close> is non-decreasing.
\<close>

theorem SlabSize_monotone:
  "(Allocate sz al malloc n F = Inr (p, F1) \<longrightarrow>
      (\<not> End F < align (CurPtr F) al + n * sz
         \<and> CurrentSlab F1 = CurrentSlab F \<and> SlabSize F1 = SlabSize F)
      \<or> (End F < align (CurPtr F) al + n * sz
         \<and> CurrentSlab F1 = malloc (sizeof_Slab + max (SlabSize F * 2) (n * sz))
         \<and> SlabSize F1 = max (SlabSize F * 2) (n * sz)))
   \<and> (Reallocate sz al malloc Objects Capacity MinGrowth F = Inr (q, c, F2) \<longrightarrow>
      (CurrentSlab F2 = CurrentSlab F \<and> SlabSize F2 = SlabSize F)
      \<or> (End F < align (CurPtr F) al + (Capacity + Growth_of Capacity MinGrowth) * sz
         \<and> CurrentSlab F2
             = malloc (sizeof_Slab
                 + max (SlabSize F * 2) ((Capacity + Growth_of Capacity MinGrowth) * sz))
         \<and> SlabSize F2
             = max (SlabSize F * 2) ((Capacity + Growth_of Capacity MinGrowth) * sz)))
   \<and> SlabSize (clear F) = SlabSize F
   \<and> (fexec op F = Inr F3 \<and> unat (SlabSize F) * 2 < 2 ^ 64 \<longrightarrow> SlabSize F \<le> SlabSize F3)
   \<and> ((\<forall>G \<in> set (trace ops F). unat (SlabSize G) * 2 < 2 ^ 64)
        \<longrightarrow> sorted (map SlabSize (trace ops F)))"
proof (intro conjI impI)
  show "SlabSize (clear F) = SlabSize F" by (rule SlabSize_clear)
next
  assume "Allocate sz al malloc n F = Inr (p, F1)"
  then show "(\<not> End F < align (CurPtr F) al + n * sz
         \<and> CurrentSlab F1 = CurrentSlab F \<and> SlabSize F1 = SlabSize F)
      \<or> (End F < align (CurPtr F) al + n * sz
         \<and> CurrentSlab F1 = malloc (sizeof_Slab + max (SlabSize F * 2) (n * sz))
         \<and> SlabSize F1 = max (SlabSize F * 2) (n * sz))"
    by (rule SlabSize_Allocate)
next
  assume "Reallocate sz al malloc Objects Capacity MinGrowth F = Inr (q, c, F2)"
  then show "(CurrentSlab F2 = CurrentSlab F \<and> SlabSize F2 = SlabSize F)
      \<or> (End F < align (CurPtr F) al + (Capacity + Growth_of Capacity MinGrowth) * sz
         \<and> CurrentSlab F2
             = malloc (sizeof_Slab
                 + max (SlabSize F * 2) ((Capacity + Growth_of Capacity MinGrowth) * sz))
         \<and> SlabSize F2
             = max (SlabSize F * 2) ((Capacity + Growth_of Capacity MinGrowth) * sz))"
    by (rule SlabSize_Reallocate)
next
  assume "fexec op F = Inr F3 \<and> unat (SlabSize F) * 2 < 2 ^ 64"
  then show "SlabSize F \<le> SlabSize F3" by (auto intro: SlabSize_fexec)
next
  assume "\<forall>G \<in> set (trace ops F). unat (SlabSize G) * 2 < 2 ^ 64"
  then show "sorted (map SlabSize (trace ops F))" by (rule SlabSize_trace_sorted)
qed

theorem SlabSize_monotone_witness:
  "list_all (\<lambda>G. unat (SlabSize G) * 2 < 2 ^ 64)
      (trace [FAllocate 24 8 (\<lambda>size. 4096) 1, FClear, FReallocate 8 8 (\<lambda>size. 16384) 4104 3 1200]
        (NodeFactory_init 24 (\<lambda>a. 0)))
   \<and> map SlabSize (trace [FAllocate 24 8 (\<lambda>size. 4096) 1, FClear, FReallocate 8 8 (\<lambda>size. 16384) 4104 3 1200]
        (NodeFactory_init 24 (\<lambda>a. 0))) = [2400, 4800, 4800, 9624]
   \<and> sorted (map SlabSize (trace [FAllocate 24 8 (\<lambda>size. 4096) 1, FClear, FReallocate 8 8 (\<lambda>size. 16384) 4104 3 1200]
        (NodeFactory_init 24 (\<lambda>a. 0))))
   \<and> fexec FClear (NodeFactory_init 24 (\<lambda>a. 0)) = Inr (NodeFactory_init 24 (\<lambda>a. 0))
   \<and> unat (SlabSize (NodeFactory_init 24 (\<lambda>a. 0))) * 2 < 2 ^ 64
   \<and> SlabSize (NodeFactory_init 24 (\<lambda>a. 0)) \<le> SlabSize (NodeFactory_init 24 (\<lambda>a. 0))
   \<and> Allocate 24 8 (\<lambda>size. 4096) 1 (NodeFactory_init 24 (\<lambda>a. 0))
     = Inr (4104, (NodeFactory_init 24 (\<lambda>a. 0))
          \<lparr>CurPtr := 4128, End := 8904, CurrentSlab := 4096, SlabSize := 4800,
           memory := store_ptr (\<lambda>a. 0) 4096 0\<rparr>)
   \<and> Reallocate 24 8 (\<lambda>size. 4096) 0 0 1 (NodeFactory_init 24 (\<lambda>a. 0))
     = Inr (4104, 4, (NodeFactory_init 24 (\<lambda>a. 0))
          \<lparr>CurPtr := 4200, End := 8904, CurrentSlab := 4096, SlabSize := 4800,
           memory := memcpy (store_ptr (\<lambda>a. 0) 4096 0) 4104 0 0\<rparr>)"
proof -
  have t: "map SlabSize (trace [FAllocate 24 8 (\<lambda>size. 4096) 1, FClear, FReallocate 8 8 (\<lambda>size. 16384) 4104 3 1200]
        (NodeFactory_init 24 (\<lambda>a. 0))) = [2400, 4800, 4800, 9624]"
    by (simp add: Reallocate_def NodeFactory_init_def Allocate_def align_def sizeof_Slab_def Let_def
        word_less_nat_alt word_le_nat_alt max_def clear_def)
  have "\<forall>S \<in> set (map SlabSize (trace [FAllocate 24 8 (\<lambda>size. 4096) 1, FClear, FReallocate 8 8 (\<lambda>size. 16384) 4104 3 1200]
        (NodeFactory_init 24 (\<lambda>a. 0)))). unat S * 2 < 2 ^ 64"
    unfolding t by simp
  then have h: "\<forall>G \<in> set (trace [FAllocate 24 8 (\<lambda>size. 4096) 1, FClear, FReallocate 8 8 (\<lambda>size. 16384) 4104 3 1200]
        (NodeFactory_init 24 (\<lambda>a. 0))). unat (SlabSize G) * 2 < 2 ^ 64"
    by simp
  have e: "fexec FClear (NodeFactory_init 24 (\<lambda>a. 0)) = Inr (NodeFactory_init 24 (\<lambda>a. 0))"
    by (simp add: clear_def NodeFactory_init_def)
  have u: "unat (SlabSize (NodeFactory_init 24 (\<lambda>a. 0))) * 2 < 2 ^ 64"
    by (simp add: NodeFactory_init_def)
  have a: "Allocate 24 8 (\<lambda>size. 4096) 1 (NodeFactory_init 24 (\<lambda>a. 0))
     = Inr (4104, (NodeFactory_init 24 (\<lambda>a. 0))
          \<lparr>CurPtr := 4128, End := 8904, CurrentSlab := 4096, SlabSize := 4800,
           memory := store_ptr (\<lambda>a. 0) 4096 0\<rparr>)"
    by (simp add: NodeFactory_init_def Allocate_def align_def sizeof_Slab_def Let_def
        word_less_nat_alt word_le_nat_alt max_def)
  have c: "Reallocate 24 8 (\<lambda>size. 4096) 0 0 1 (NodeFactory_init 24 (\<lambda>a. 0))
     = Inr (4104, 4, (NodeFactory_init 24 (\<lambda>a. 0))
          \<lparr>CurPtr := 4200, End := 8904, CurrentSlab := 4096, SlabSize := 4800,
           memory := memcpy (store_ptr (\<lambda>a. 0) 4096 0) 4104 0 0\<rparr>)"
    by (simp add: Reallocate_def NodeFactory_init_def Allocate_def align_def sizeof_Slab_def Let_def
        word_less_nat_alt word_le_nat_alt max_def)
  from t h e u a c SlabSize_monotone [where sz = 24 and al = 8 and malloc = "\<lambda>size. 4096" and n = 1
      and F = "NodeFactory_init 24 (\<lambda>a. 0)" and p = 4104
      and ?F1.0 = "(NodeFactory_init 24 (\<lambda>a. 0))
          \<lparr>CurPtr := 4128, End := 8904, CurrentSlab := 4096, SlabSize := 4800,
           memory := store_ptr (\<lambda>a. 0) 4096 0\<rparr>"
      and Objects = 0 and Capacity = 0 and MinGrowth = 1 and q = 4104 and c = 4
      and ?F2.0 = "(NodeFactory_init 24 (\<lambda>a. 0))
          \<lparr>CurPtr := 4200, End := 8904, CurrentSlab := 4096, SlabSize := 4800,
           memory := memcpy (store_ptr (\<lambda>a. 0) 4096 0) 4104 0 0\<rparr>"
      and op = FClear and ?F3.0 = "NodeFactory_init 24 (\<lambda>a. 0)"
      and ops = "[FAllocate 24 8 (\<lambda>size. 4096) 1, FClear, FReallocate 8 8 (\<lambda>size. 16384) 4104 3 1200]"]
  show ?thesis unfolding list_all_iff by blast
qed

text \<open>
  Claim C4.  \<open>SlabSize\<close> is non-decreasing over every sequence of operations of the
  factory; the header says so itself (\<open>The slab size can only grow\<close>).  The code does
  not keep it: a fresh factory is asked for \<open>SIZE_MAX\<close> bytes of \<open>char\<close> and then for
  one byte.  The first call stores \<open>SlabSize = SIZE_MAX\<close>; in the second, \<open>SlabSize * 2\<close>
  is computed without a check, wraps to \<open>SIZE_MAX - 1\<close>, and the slab allocation stores
  that smaller value.
\<close>

theorem SlabSize_shrinks_on_wrap:
  "map SlabSize
       (trace [FAllocate 1 1 (\<lambda>size. 4096) 18446744073709551615, FAllocate 1 1 (\<lambda>size. 8192) 1]
          (NodeFactory_init 24 (\<lambda>a. 0)))
     = [2400, 18446744073709551615, 18446744073709551614]
   \<and> \<not> (18446744073709551615 :: size_t) \<le> 18446744073709551614"
  by (simp add: NodeFactory_init_def Allocate_def align_def sizeof_Slab_def Let_def
      word_less_nat_alt word_le_nat_alt max_def)

subsection \<open>Alignment and the regions of one slab\<close>

lemma and_not_mask_div:
  fixes x :: ptr
  shows "x AND NOT (mask k) = x div 2 ^ k * 2 ^ k"
proof -
  have "x AND NOT (mask k) = push_bit k (drop_bit k x)"
    by (rule bit_eqI) (auto simp: bit_simps)
  then show ?thesis by (simp add: push_bit_eq_mult drop_bit_eq_div)
qed

lemma unat_div_mult:
  fixes x a :: ptr
  shows "unat (x div a * a) = unat x div unat a * unat a"
proof -
  have "unat x div unat a * unat a \<le> unat x" by simp
  moreover have "unat x < 2 ^ LENGTH(64)" by (rule unsigned_less)
  ultimately have "unat (x div a) * unat a < 2 ^ LENGTH(64)"
    by (simp only: unat_div le_less_trans)
  then have "unat (x div a * a) = unat (x div a) * unat a"
    by (rule unat_mult_lem [THEN iffD1])
  then show ?thesis by (simp add: unat_div)
qed

lemma unat_add_numeral:
  fixes p d :: ptr
  assumes "unat p + unat d < 2 ^ 64"
  shows "unat (p + d) = unat p + unat d"
  using assms unat_add_lem [of p d] by simp

lemma align_valid:
  assumes "valid_alignof al" "unat p + unat al - 1 < 2 ^ 64"
  shows "unat (align p al) = roundup (unat p) (unat al)"
proof -
  from assms(1) consider "al = 1" | "al = 2" | "al = 4" | "al = 8"
    by (auto simp: valid_alignof_def)
  then show ?thesis
  proof cases
    case 1
    then show ?thesis by (simp add: align_def roundup_def)
  next
    case 2
    have "align p 2 = (p + 1) div 2 ^ 1 * 2 ^ 1"
      using and_not_mask_div [of "p + 1" 1]
      by (simp add: align_def mask_eq_exp_minus_1 add.commute)
    moreover have "unat (p + 1) = unat p + 1"
      using assms(2) 2 unat_add_numeral [of p 1] by simp
    ultimately show ?thesis
      using unat_div_mult [of "p + 1" 2] by (simp add: 2 roundup_def)
  next
    case 3
    have "align p 4 = (p + 3) div 2 ^ 2 * 2 ^ 2"
      using and_not_mask_div [of "p + 3" 2] by (simp add: align_def mask_eq_exp_minus_1 add.commute)
    moreover have "unat (p + 3) = unat p + 3"
      using assms(2) 3 unat_add_numeral [of p 3] by simp
    ultimately show ?thesis
      using unat_div_mult [of "p + 3" 4] by (simp add: 3 roundup_def)
  next
    case 4
    have "align p 8 = (p + 7) div 2 ^ 3 * 2 ^ 3"
      using and_not_mask_div [of "p + 7" 3] by (simp add: align_def mask_eq_exp_minus_1 add.commute)
    moreover have "unat (p + 7) = unat p + 7"
      using assms(2) 4 unat_add_numeral [of p 7] by simp
    ultimately show ?thesis
      using unat_div_mult [of "p + 7" 8] by (simp add: 4 roundup_def)
  qed
qed

lemma roundup_ge: "0 < a \<Longrightarrow> c \<le> roundup c a"
proof -
  assume a: "0 < a"
  have "c + a - 1 < ((c + a - 1) div a) * a + a"
    using a by (metis add.commute dividend_less_div_times)
  then show ?thesis using a by (simp add: roundup_def)
qed

lemma valid_alignof_pos: "valid_alignof al \<Longrightarrow> 0 < unat al \<and> al \<noteq> 0"
  by (auto simp: valid_alignof_def)

lemma roundup_no_wrap:
  assumes "valid_alignof al" "roundup c (unat al) < 2 ^ 64"
  shows "c + unat al - 1 < 2 ^ 64"
proof -
  from assms(1) consider "al = 1" | "al = 2" | "al = 4" | "al = 8"
    by (auto simp: valid_alignof_def)
  then show ?thesis
  proof cases
    case 1
    with assms(2) show ?thesis by (simp add: roundup_def)
  next
    case 2
    with assms(2) have "(c + 1) div 2 * 2 < 18446744073709551616" by (simp add: roundup_def)
    then have "c + 1 < 18446744073709551616" by presburger
    with 2 show ?thesis by simp
  next
    case 3
    with assms(2) have "(c + 3) div 4 * 4 < 18446744073709551616" by (simp add: roundup_def)
    then have "c + 3 < 18446744073709551616" by presburger
    with 3 show ?thesis by simp
  next
    case 4
    with assms(2) have "(c + 7) div 8 * 8 < 18446744073709551616" by (simp add: roundup_def)
    then have "c + 7 < 18446744073709551616" by presburger
    with 4 show ?thesis by simp
  qed
qed

lemma unat_mult_no_wrap:
  fixes n sz :: size_t
  assumes "unat n * unat sz < 2 ^ 64"
  shows "unat (n * sz) = unat n * unat sz"
  using assms unat_mult_lem [of n sz] by simp

lemma Allocate_in_place:
  assumes al: "valid_alignof al"
    and nw: "roundup (unat (CurPtr F)) (unat al) + unat n * unat sz < 2 ^ 64"
  shows "unat (align (CurPtr F) al) = roundup (unat (CurPtr F)) (unat al)"
    and "unat (n * sz) = unat n * unat sz"
    and "unat (align (CurPtr F) al + n * sz)
           = roundup (unat (CurPtr F)) (unat al) + unat n * unat sz"
    and "End F < align (CurPtr F) al + n * sz
           \<longleftrightarrow> unat (End F) < roundup (unat (CurPtr F)) (unat al) + unat n * unat sz"
proof -
  from nw have "roundup (unat (CurPtr F)) (unat al) < 2 ^ 64" by simp
  from align_valid [OF al roundup_no_wrap [OF al this]]
  show a: "unat (align (CurPtr F) al) = roundup (unat (CurPtr F)) (unat al)" .
  from nw show m: "unat (n * sz) = unat n * unat sz"
    by (intro unat_mult_no_wrap) simp
  from nw a m show s: "unat (align (CurPtr F) al + n * sz)
           = roundup (unat (CurPtr F)) (unat al) + unat n * unat sz"
    by (simp add: unat_add_numeral)
  show "End F < align (CurPtr F) al + n * sz
           \<longleftrightarrow> unat (End F) < roundup (unat (CurPtr F)) (unat al) + unat n * unat sz"
    by (simp add: word_less_nat_alt s)
qed

lemma Allocate_fits:
  assumes al: "valid_alignof al"
    and fit: "roundup (unat (CurPtr F)) (unat al) + unat n * unat sz \<le> unat (End F)"
  shows "Allocate sz al m n F
           = Inr (align (CurPtr F) al, F\<lparr>CurPtr := align (CurPtr F) al + n * sz\<rparr>)"
proof -
  have "unat (End F) < 2 ^ 64" using unsigned_less [of "End F"] by simp
  with fit have nw: "roundup (unat (CurPtr F)) (unat al) + unat n * unat sz < 2 ^ 64"
    by simp
  from Allocate_in_place(4) [OF al nw] fit
  have "\<not> End F < align (CurPtr F) al + n * sz" by simp
  with valid_alignof_pos [OF al] show ?thesis
    by (simp add: Allocate_def Let_def)
qed

lemma Allocate_new_slab:
  assumes al: "valid_alignof al"
    and nw: "roundup (unat (CurPtr F)) (unat al) + unat n * unat sz < 2 ^ 64"
    and nofit: "unat (End F) < roundup (unat (CurPtr F)) (unat al) + unat n * unat sz"
    and ns: "malloc (sizeof_Slab + new_SlabSize F (n * sz)) = ns" "ns \<noteq> 0"
      "align (ns + sizeof_Slab) al = ns + sizeof_Slab"
  shows "Allocate sz al malloc n F
           = Inr (ns + sizeof_Slab,
                  F\<lparr>CurPtr := ns + sizeof_Slab + n * sz,
                    End := ns + sizeof_Slab + new_SlabSize F (n * sz),
                    CurrentSlab := ns, SlabSize := new_SlabSize F (n * sz),
                    memory := store_ptr (memory F) ns (CurrentSlab F)\<rparr>)"
proof -
  from Allocate_in_place(4) [OF al nw] nofit
  have "End F < align (CurPtr F) al + n * sz" by simp
  with valid_alignof_pos [OF al] ns show ?thesis
    by (simp add: Allocate_def Let_def new_SlabSize_def add.assoc add.commute)
qed

lemma store_ptr_outside:
  "\<not> in_block a ns sizeof_Slab \<Longrightarrow> store_ptr m ns v a = m a"
  by (simp add: store_ptr_def in_block_def sizeof_Slab_def)

lemma in_block_nat:
  assumes "unat p + unat len \<le> 2 ^ 64"
  shows "in_block a p len \<longleftrightarrow> unat p \<le> unat a \<and> unat a < unat p + unat len"
proof -
  have "unat a < 2 ^ 64" using unsigned_less [of a] by simp
  with assms show ?thesis
    by (auto simp: in_block_def unat_sub_if_size word_size)
qed

lemma aligned_total_ge:
  "list_all (\<lambda>r. valid_alignof (fst (snd r))) rs \<Longrightarrow> c \<le> aligned_total c rs"
proof (induction rs arbitrary: c)
  case Nil
  then show ?case by simp
next
  case (Cons r rs)
  obtain sz al m n where r: "r = (sz, al, m, n)" by (cases r)
  from Cons.prems r have al: "valid_alignof al"
    and rest: "list_all (\<lambda>r. valid_alignof (fst (snd r))) rs"
    by auto
  have "c \<le> roundup c (unat al)"
    using valid_alignof_pos [OF al] by (simp add: roundup_ge)
  also have "\<dots> \<le> roundup c (unat al) + unat n * unat sz" by simp
  also have "\<dots> \<le> aligned_total (roundup c (unat al) + unat n * unat sz) rs"
    by (rule Cons.IH [OF rest])
  finally show ?case by (simp add: r)
qed

lemma Allocate_all_fits:
  assumes "list_all (\<lambda>r. valid_alignof (fst (snd r))) rs"
    and "aligned_total (unat (CurPtr F)) rs \<le> unat (End F)"
  shows "\<exists>regions.
      Allocate_all rs F
        = Inr (regions, F\<lparr>CurPtr := word_of_nat (aligned_total (unat (CurPtr F)) rs)\<rparr>)
      \<and> length regions = length rs
      \<and> sorted_wrt (\<lambda>r r'. unat (fst r) + unat (snd r) \<le> unat (fst r')) regions
      \<and> list_all (\<lambda>r. unat (CurPtr F) \<le> unat (fst r)
                    \<and> unat (fst r) + unat (snd r) \<le> aligned_total (unat (CurPtr F)) rs) regions"
  using assms
proof (induction rs arbitrary: F)
  case Nil
  then show ?case by simp
next
  case (Cons r rs)
  obtain sz al m n where r: "r = (sz, al, m, n)" by (cases r)
  from Cons.prems(1) r have al: "valid_alignof al"
    and rest: "list_all (\<lambda>r. valid_alignof (fst (snd r))) rs"
    by auto
  let ?c = "roundup (unat (CurPtr F)) (unat al) + unat n * unat sz"
  let ?p = "align (CurPtr F) al"
  let ?F1 = "F\<lparr>CurPtr := ?p + n * sz\<rparr>"
  from Cons.prems(2) r have tot: "aligned_total ?c rs \<le> unat (End F)" by simp
  from aligned_total_ge [OF rest, of ?c] tot have fit: "?c \<le> unat (End F)" by simp
  have "unat (End F) < 2 ^ 64" using unsigned_less [of "End F"] by simp
  with fit have nw: "?c < 2 ^ 64" by simp
  note ip = Allocate_in_place [OF al nw]
  have c1: "unat (CurPtr ?F1) = ?c" using ip(3) by simp
  have first: "Allocate sz al m n F = Inr (?p, ?F1)"
    by (rule Allocate_fits [OF al fit])
  from tot c1 have "aligned_total (unat (CurPtr ?F1)) rs \<le> unat (End ?F1)" by simp
  from Cons.IH [OF rest this] c1 obtain regions where
    run: "Allocate_all rs ?F1 = Inr (regions, ?F1\<lparr>CurPtr := word_of_nat (aligned_total ?c rs)\<rparr>)"
    and len: "length regions = length rs"
    and srt: "sorted_wrt (\<lambda>r r'. unat (fst r) + unat (snd r) \<le> unat (fst r')) regions"
    and bnd: "list_all (\<lambda>r. ?c \<le> unat (fst r)
                    \<and> unat (fst r) + unat (snd r) \<le> aligned_total ?c rs) regions"
    by auto
  have ge: "unat (CurPtr F) \<le> unat ?p"
    using ip(1) valid_alignof_pos [OF al] by (simp add: roundup_ge)
  have here: "unat ?p + unat (n * sz) = ?c" using ip(1,2) by simp
  have "Allocate_all (r # rs) F
      = Inr ((?p, n * sz) # regions,
             F\<lparr>CurPtr := word_of_nat (aligned_total (unat (CurPtr F)) (r # rs))\<rparr>)"
    using first run by (simp add: r)
  moreover have "length ((?p, n * sz) # regions) = length (r # rs)"
    using len by simp
  moreover have "sorted_wrt (\<lambda>r r'. unat (fst r) + unat (snd r) \<le> unat (fst r'))
      ((?p, n * sz) # regions)"
    using srt bnd here by (auto simp: list_all_iff)
  moreover have "list_all (\<lambda>g. unat (CurPtr F) \<le> unat (fst g)
        \<and> unat (fst g) + unat (snd g) \<le> aligned_total (unat (CurPtr F)) (r # rs))
      ((?p, n * sz) # regions)"
  proof -
    have "?c \<le> aligned_total ?c rs" by (rule aligned_total_ge [OF rest])
    moreover have "unat (CurPtr F) \<le> ?c" using ge here by simp
    ultimately show ?thesis
      using bnd ge here by (auto simp: list_all_iff r)
  qed
  ultimately show ?case by blast
qed

lemma regions_disjoint:
  assumes "sorted_wrt (\<lambda>r r'. unat (fst r) + unat (snd r) \<le> unat (fst r')) regions"
    and "list_all (\<lambda>r. unat (fst r) + unat (snd r) \<le> 2 ^ 64) regions"
  shows "sorted_wrt (\<lambda>r r'. \<forall>a. \<not> (in_block a (fst r) (snd r) \<and> in_block a (fst r') (snd r')))
           regions"
  using assms
proof (induction regions)
  case Nil
  then show ?case by simp
next
  case (Cons r regions)
  have "\<not> (in_block a (fst r) (snd r) \<and> in_block a (fst r') (snd r'))"
    if "r' \<in> set regions" for r' a
  proof -
    from Cons.prems that have "unat (fst r) + unat (snd r) \<le> unat (fst r')"
      and "unat (fst r) + unat (snd r) \<le> 2 ^ 64" and "unat (fst r') + unat (snd r') \<le> 2 ^ 64"
      by (auto simp: list_all_iff)
    then show ?thesis by (auto simp: in_block_nat)
  qed
  with Cons show ?case by simp
qed

lemma regions_sorted:
  assumes "sorted_wrt (\<lambda>r r'. unat (fst r) + unat (snd r) \<le> unat (fst r')) regions"
  shows "sorted (map fst regions)"
proof -
  have "sorted_wrt (\<lambda>r r'. fst r \<le> fst r') regions"
    by (rule sorted_wrt_mono_rel [OF _ assms]) (simp add: word_le_nat_alt)
  then show ?thesis by (simp add: sorted_map)
qed

text \<open>
  Where the sizes do not wrap, the regions are as expected.  First part: when the template arguments have valid
  alignments and the total aligned size of a sequence of requests, counted from the
  frontier, does not exceed \<open>End\<close>, every call returns, only the frontier changes,
  the regions returned are ordered by increasing address, each ends where or before
  the next begins, no address lies in two of them, and all lie between the old frontier
  and \<open>End\<close>.  Second part: when a request does not fit in the current slab and the
  aligned frontier plus the requested size is below \<open>2^64\<close>, and \<open>malloc\<close> returns a
  non-null block aligned for \<open>T\<close>, the call returns the start of the new slab; the
  capacity of the new slab is the maximum of \<open>2 * SlabSize\<close> (in \<open>size_t\<close>) and the
  requested size, and the memory outside the header of the new slab is unchanged.
\<close>

theorem Allocate_regions:
  "(list_all (\<lambda>r. valid_alignof (fst (snd r))) rs
      \<and> aligned_total (unat (CurPtr F)) rs \<le> unat (End F)
    \<longrightarrow> (\<exists>regions.
          Allocate_all rs F
            = Inr (regions, F\<lparr>CurPtr := word_of_nat (aligned_total (unat (CurPtr F)) rs)\<rparr>)
          \<and> length regions = length rs
          \<and> sorted (map fst regions)
          \<and> sorted_wrt (\<lambda>r r'. unat (fst r) + unat (snd r) \<le> unat (fst r')) regions
          \<and> sorted_wrt (\<lambda>r r'. \<forall>a. \<not> (in_block a (fst r) (snd r) \<and> in_block a (fst r') (snd r')))
               regions
          \<and> list_all (\<lambda>r. unat (CurPtr F) \<le> unat (fst r)
                         \<and> unat (fst r) + unat (snd r) \<le> unat (End F)) regions))
   \<and> (valid_alignof al
        \<and> roundup (unat (CurPtr F)) (unat al) + unat n * unat sz < 2 ^ 64
        \<and> unat (End F) < roundup (unat (CurPtr F)) (unat al) + unat n * unat sz
        \<and> malloc (sizeof_Slab + max (SlabSize F * 2) (n * sz)) = ns \<and> ns \<noteq> 0
        \<and> align (ns + sizeof_Slab) al = ns + sizeof_Slab
      \<longrightarrow> (\<exists>F1.
            Allocate sz al malloc n F = Inr (ns + sizeof_Slab, F1)
            \<and> CurrentSlab F1 = ns
            \<and> SlabSize F1 = max (SlabSize F * 2) (n * sz)
            \<and> End F1 = ns + sizeof_Slab + SlabSize F1
            \<and> CurPtr F1 = ns + sizeof_Slab + n * sz
            \<and> unat (n * sz) = unat n * unat sz
            \<and> (\<forall>a. \<not> in_block a ns sizeof_Slab \<longrightarrow> memory F1 a = memory F a)))"
proof (intro conjI impI; elim conjE)
  assume al: "list_all (\<lambda>r. valid_alignof (fst (snd r))) rs"
    and fit: "aligned_total (unat (CurPtr F)) rs \<le> unat (End F)"
  from Allocate_all_fits [OF al fit] obtain regions where
    run: "Allocate_all rs F
        = Inr (regions, F\<lparr>CurPtr := word_of_nat (aligned_total (unat (CurPtr F)) rs)\<rparr>)"
    and len: "length regions = length rs"
    and srt: "sorted_wrt (\<lambda>r r'. unat (fst r) + unat (snd r) \<le> unat (fst r')) regions"
    and bnd: "list_all (\<lambda>r. unat (CurPtr F) \<le> unat (fst r)
                \<and> unat (fst r) + unat (snd r) \<le> aligned_total (unat (CurPtr F)) rs) regions"
    by blast
  from bnd fit have bnd': "list_all (\<lambda>r. unat (CurPtr F) \<le> unat (fst r)
                \<and> unat (fst r) + unat (snd r) \<le> unat (End F)) regions"
    by (auto simp: list_all_iff)
  have "unat (End F) < 2 ^ LENGTH(64)" by (rule unsigned_less)
  then have "unat (End F) \<le> 2 ^ 64" by simp
  with bnd' have "list_all (\<lambda>r. unat (fst r) + unat (snd r) \<le> 2 ^ 64) regions"
    by (auto simp: list_all_iff)
  from regions_disjoint [OF srt this] regions_sorted [OF srt] run len srt bnd'
  show "\<exists>regions.
          Allocate_all rs F
            = Inr (regions, F\<lparr>CurPtr := word_of_nat (aligned_total (unat (CurPtr F)) rs)\<rparr>)
          \<and> length regions = length rs
          \<and> sorted (map fst regions)
          \<and> sorted_wrt (\<lambda>r r'. unat (fst r) + unat (snd r) \<le> unat (fst r')) regions
          \<and> sorted_wrt (\<lambda>r r'. \<forall>a. \<not> (in_block a (fst r) (snd r) \<and> in_block a (fst r') (snd r')))
               regions
          \<and> list_all (\<lambda>r. unat (CurPtr F) \<le> unat (fst r)
                         \<and> unat (fst r) + unat (snd r) \<le> unat (End F)) regions"
    by blast
next
  assume al: "valid_alignof al"
    and nw: "roundup (unat (CurPtr F)) (unat al) + unat n * unat sz < 2 ^ 64"
    and nofit: "unat (End F) < roundup (unat (CurPtr F)) (unat al) + unat n * unat sz"
    and ns: "malloc (sizeof_Slab + max (SlabSize F * 2) (n * sz)) = ns" "ns \<noteq> 0"
      "align (ns + sizeof_Slab) al = ns + sizeof_Slab"
  have m: "malloc (sizeof_Slab + new_SlabSize F (n * sz)) = ns"
    using ns(1) by (simp add: new_SlabSize_def)
  from Allocate_new_slab [where malloc = malloc, OF al nw nofit m ns(2,3)]
    Allocate_in_place(2) [OF al nw]
  show "\<exists>F1.
            Allocate sz al malloc n F = Inr (ns + sizeof_Slab, F1)
            \<and> CurrentSlab F1 = ns
            \<and> SlabSize F1 = max (SlabSize F * 2) (n * sz)
            \<and> End F1 = ns + sizeof_Slab + SlabSize F1
            \<and> CurPtr F1 = ns + sizeof_Slab + n * sz
            \<and> unat (n * sz) = unat n * unat sz
            \<and> (\<forall>a. \<not> in_block a ns sizeof_Slab \<longrightarrow> memory F1 a = memory F a)"
    by (simp add: new_SlabSize_def store_ptr_outside)
qed

theorem Allocate_regions_witness:
  "list_all (\<lambda>r. valid_alignof (fst (snd r)))
      ([(24, 8, \<lambda>size. 0, 2), (1, 1, \<lambda>size. 0, 3), (8, 8, \<lambda>size. 0, 1)] :: request list)
   \<and> aligned_total 4128 [(24, 8, \<lambda>size. 0, 2), (1, 1, \<lambda>size. 0, 3), (8, 8, \<lambda>size. 0, 1)] = 4192
   \<and> Allocate_all [(24, 8, \<lambda>size. 0, 2), (1, 1, \<lambda>size. 0, 3), (8, 8, \<lambda>size. 0, 1)]
        ((NodeFactory_init 24 (\<lambda>a. 0))
           \<lparr>CurPtr := 4128, End := 8904, CurrentSlab := 4096, SlabSize := 4800,
            memory := store_ptr (\<lambda>a. 0) 4096 0\<rparr>)
      = Inr ([(4128, 48), (4176, 3), (4184, 8)],
             (NodeFactory_init 24 (\<lambda>a. 0))
               \<lparr>CurPtr := 4192, End := 8904, CurrentSlab := 4096, SlabSize := 4800,
                memory := store_ptr (\<lambda>a. 0) 4096 0\<rparr>)
   \<and> sorted_wrt (\<lambda>r r'. \<forall>a. \<not> (in_block a (fst r) (snd r) \<and> in_block a (fst r') (snd r')))
        [(4128, 48), (4176, 3), (4184, 8 :: size_t)]
   \<and> valid_alignof 8
   \<and> Allocate 24 8 (\<lambda>size. 4096) 1 (NodeFactory_init 24 (\<lambda>a. 0))
     = Inr (4104, (NodeFactory_init 24 (\<lambda>a. 0))
          \<lparr>CurPtr := 4128, End := 8904, CurrentSlab := 4096, SlabSize := 4800,
           memory := store_ptr (\<lambda>a. 0) 4096 0\<rparr>)"
proof -
  let ?rs = "[(24, 8, \<lambda>size. 0, 2), (1, 1, \<lambda>size. 0, 3), (8, 8, \<lambda>size. 0, 1)] :: request list"
  let ?F = "(NodeFactory_init 24 (\<lambda>a. 0))
           \<lparr>CurPtr := 4128, End := 8904, CurrentSlab := 4096, SlabSize := 4800,
            memory := store_ptr (\<lambda>a. 0) 4096 0\<rparr>"
  have v: "list_all (\<lambda>r. valid_alignof (fst (snd r))) ?rs"
    by (simp add: valid_alignof_def)
  have t: "aligned_total 4128 ?rs = 4192"
    by (simp add: roundup_def)
  have c: "unat (CurPtr ?F) = 4128" "unat (End ?F) = 8904"
    by simp_all
  have r: "Allocate_all ?rs ?F
      = Inr ([(4128, 48), (4176, 3), (4184, 8)],
             (NodeFactory_init 24 (\<lambda>a. 0))
               \<lparr>CurPtr := 4192, End := 8904, CurrentSlab := 4096, SlabSize := 4800,
                memory := store_ptr (\<lambda>a. 0) 4096 0\<rparr>)"
    by (simp add: NodeFactory_init_def Allocate_def align_def Let_def
        word_less_nat_alt word_le_nat_alt)
  have v8: "valid_alignof 8" by (simp add: valid_alignof_def)
  have h: "roundup (unat (CurPtr (NodeFactory_init 24 (\<lambda>a. 0)))) (unat (8 :: size_t))
             + unat (1 :: size_t) * unat (24 :: size_t) < 2 ^ 64"
    "unat (End (NodeFactory_init 24 (\<lambda>a. 0)))
       < roundup (unat (CurPtr (NodeFactory_init 24 (\<lambda>a. 0)))) (unat (8 :: size_t))
             + unat (1 :: size_t) * unat (24 :: size_t)"
    "(\<lambda>size. 4096) (sizeof_Slab + max (SlabSize (NodeFactory_init 24 (\<lambda>a. 0)) * 2) (1 * 24))
       = (4096 :: ptr)"
    "(4096 :: ptr) \<noteq> 0" "align (4096 + sizeof_Slab) 8 = 4096 + sizeof_Slab"
    by (simp_all add: roundup_def NodeFactory_init_def align_def sizeof_Slab_def)
  have a: "Allocate 24 8 (\<lambda>size. 4096) 1 (NodeFactory_init 24 (\<lambda>a. 0))
     = Inr (4104, (NodeFactory_init 24 (\<lambda>a. 0))
          \<lparr>CurPtr := 4128, End := 8904, CurrentSlab := 4096, SlabSize := 4800,
           memory := store_ptr (\<lambda>a. 0) 4096 0\<rparr>)"
    by (simp add: NodeFactory_init_def Allocate_def align_def sizeof_Slab_def Let_def
        word_less_nat_alt word_le_nat_alt max_def)
  have "aligned_total (unat (CurPtr ?F)) ?rs \<le> unat (End ?F)"
    unfolding c t by simp
  with v have hyp: "list_all (\<lambda>r. valid_alignof (fst (snd r))) ?rs
      \<and> aligned_total (unat (CurPtr ?F)) ?rs \<le> unat (End ?F)" ..
  from Allocate_regions [where rs = ?rs and F = ?F, THEN conjunct1, THEN mp, OF hyp]
  obtain regions G where run: "Allocate_all ?rs ?F = Inr (regions, G)"
    and d: "sorted_wrt (\<lambda>r r'. \<forall>a. \<not> (in_block a (fst r) (snd r) \<and> in_block a (fst r') (snd r')))
        regions"
    by blast
  from run have "regions = [(4128, 48), (4176, 3), (4184, 8)]" unfolding r by simp
  with d have s: "sorted_wrt (\<lambda>r r'. \<forall>a. \<not> (in_block a (fst r) (snd r) \<and> in_block a (fst r') (snd r')))
        [(4128, 48), (4176, 3), (4184, 8 :: size_t)]"
    by simp
  from v8 h have hyp2: "valid_alignof 8
        \<and> roundup (unat (CurPtr (NodeFactory_init 24 (\<lambda>a. 0)))) (unat (8 :: size_t))
             + unat (1 :: size_t) * unat (24 :: size_t) < 2 ^ 64
        \<and> unat (End (NodeFactory_init 24 (\<lambda>a. 0)))
             < roundup (unat (CurPtr (NodeFactory_init 24 (\<lambda>a. 0)))) (unat (8 :: size_t))
             + unat (1 :: size_t) * unat (24 :: size_t)
        \<and> (\<lambda>size. 4096) (sizeof_Slab + max (SlabSize (NodeFactory_init 24 (\<lambda>a. 0)) * 2) (1 * 24))
             = (4096 :: ptr)
        \<and> (4096 :: ptr) \<noteq> 0 \<and> align (4096 + sizeof_Slab) 8 = 4096 + sizeof_Slab"
    by (intro conjI)
  from Allocate_regions [where al = 8 and F = "NodeFactory_init 24 (\<lambda>a. 0)" and n = 1 and sz = 24
      and malloc = "\<lambda>size. 4096" and ns = 4096, THEN conjunct2, THEN mp, OF hyp2]
  have "\<exists>F1. Allocate 24 8 (\<lambda>size. 4096) 1 (NodeFactory_init 24 (\<lambda>a. 0)) = Inr (4096 + sizeof_Slab, F1)"
    by blast
  with v t r s v8 a show ?thesis by blast
qed

text \<open>
  Claim C2.  The regions \<open>Allocate\<close> returns are pairwise disjoint, and a request that
  does not fit in the current slab gets a new slab whose capacity is the maximum of
  \<open>2 * SlabSize\<close> and the requested size; the code asks itself the same question
  (\<open>Do we have enough space in the current slab?\<close>).  The code does not keep it: a
  fresh factory serves one byte of \<open>char\<close> (at 4104, in a slab at 4096), so 4799 bytes
  are left, and is then asked for \<open>2^64 - 8\<close> bytes.  \<open>CurPtr + ObjectSize\<close> is
  computed without a check and wraps to 4097, below \<open>End\<close>; the call allocates no slab,
  returns the frontier 4105 and moves the frontier eight bytes back.
\<close>

theorem Allocate_wrapped_request_kept_in_slab:
  "map (\<lambda>G. (CurPtr G, End G, CurrentSlab G, SlabSize G))
       (trace [FAllocate 1 1 (\<lambda>size. 4096) 1, FAllocate 1 1 (\<lambda>size. 16384) 18446744073709551608]
          (NodeFactory_init 24 (\<lambda>a. 0)))
     = [(0, 0, 0, 2400), (4105, 8904, 4096, 4800), (4097, 8904, 4096, 4800)]
   \<and> Allocate 1 1 (\<lambda>size. 16384) 18446744073709551608
        ((NodeFactory_init 24 (\<lambda>a. 0))
           \<lparr>CurPtr := 4105, End := 8904, CurrentSlab := 4096, SlabSize := 4800,
            memory := store_ptr (\<lambda>a. 0) 4096 0\<rparr>)
      = Inr (4105, (NodeFactory_init 24 (\<lambda>a. 0))
           \<lparr>CurPtr := 4097, End := 8904, CurrentSlab := 4096, SlabSize := 4800,
            memory := store_ptr (\<lambda>a. 0) 4096 0\<rparr>)
   \<and> unat (8904 :: ptr) - unat (4105 :: ptr) < unat (18446744073709551608 * 1 :: size_t)"
  by (simp add: NodeFactory_init_def Allocate_def align_def sizeof_Slab_def Let_def
      word_less_nat_alt word_le_nat_alt max_def)

text \<open>
  The next request, for eight bytes, is then served at 4097: the byte at 4104, handed
  out by the first call, lies in the region of the third call as well.
\<close>

lemma Allocate_regions_overlap_after_wrap:
  "Allocate_all
       [(1, 1, \<lambda>size. 4096, 1), (1, 1, \<lambda>size. 16384, 18446744073709551608),
        (1, 1, \<lambda>size. 16384, 8)]
       (NodeFactory_init 24 (\<lambda>a. 0))
     = Inr ([(4104, 1), (4105, 18446744073709551608), (4097, 8)],
            (NodeFactory_init 24 (\<lambda>a. 0))
              \<lparr>CurPtr := 4105, End := 8904, CurrentSlab := 4096, SlabSize := 4800,
               memory := store_ptr (\<lambda>a. 0) 4096 0\<rparr>)
   \<and> in_block 4104 4104 1 \<and> in_block 4104 4097 8"
  by (simp add: NodeFactory_init_def Allocate_def align_def sizeof_Slab_def Let_def
      word_less_nat_alt word_le_nat_alt max_def in_block_def)

subsection \<open>Growing an array\<close>

lemma unat_lt_2p64:
  fixes x :: ptr
  shows "unat x < 2 ^ 64"
proof -
  have "unat x < 2 ^ LENGTH(64)" by (rule unsigned_less)
  then show ?thesis by simp
qed

lemma Reallocate_in_place:
  assumes front: "Objects + Capacity * sz = CurPtr F"
    and room: "unat (CurPtr F) + unat MinGrowth * unat sz \<le> unat (End F)"
  shows "Reallocate sz al malloc Objects Capacity MinGrowth F
           = Inr (Objects, Capacity + MinGrowth, F\<lparr>CurPtr := CurPtr F + MinGrowth * sz\<rparr>)"
    and "unat (CurPtr F + MinGrowth * sz) = unat (CurPtr F) + unat MinGrowth * unat sz"
proof -
  have e: "unat (End F) < 2 ^ 64" by (rule unat_lt_2p64)
  with room have "unat MinGrowth * unat sz < 2 ^ 64" by simp
  then have m: "unat (MinGrowth * sz) = unat MinGrowth * unat sz"
    by (rule unat_mult_no_wrap)
  from room e have "unat (CurPtr F) + unat (MinGrowth * sz) < 2 ^ 64"
    by (simp add: m)
  then have "unat (CurPtr F + MinGrowth * sz) = unat (CurPtr F) + unat (MinGrowth * sz)"
    by (rule unat_add_numeral)
  with m show s: "unat (CurPtr F + MinGrowth * sz) = unat (CurPtr F) + unat MinGrowth * unat sz"
    by simp
  with room have "CurPtr F + MinGrowth * sz \<le> End F"
    by (simp add: word_le_nat_alt)
  with front show "Reallocate sz al malloc Objects Capacity MinGrowth F
           = Inr (Objects, Capacity + MinGrowth, F\<lparr>CurPtr := CurPtr F + MinGrowth * sz\<rparr>)"
    by (simp add: Reallocate_def Let_def)
qed

lemma Growth_of_ideal:
  fixes Capacity MinGrowth :: size_t
  assumes "unat Capacity * 2 < 2 ^ 64"
  shows "unat (Growth_of Capacity MinGrowth) = ideal_Growth (unat Capacity) (unat MinGrowth)"
proof -
  have c: "unat (Capacity * 2) = unat Capacity * 2"
    using assms unat_mult_no_wrap [of Capacity 2] by simp
  show ?thesis
    by (auto simp: Growth_of_def ideal_Growth_def Let_def word_le_nat_alt word_less_nat_alt c)
qed

lemma ideal_Growth_bounds:
  "MinGrowth \<le> ideal_Growth Capacity MinGrowth" "4 \<le> ideal_Growth Capacity MinGrowth"
  "Capacity \<le> ideal_Growth Capacity MinGrowth" "2 * Capacity \<le> ideal_Growth Capacity MinGrowth"
  by (simp_all add: ideal_Growth_def)

lemma memcpy_copies:
  assumes "i < unat n"
  shows "memcpy m dst src n (dst + word_of_nat i) = m (src + word_of_nat i)"
proof -
  have "i < 2 ^ 64" using assms unat_lt_2p64 [of n] by simp
  then have "unat (word_of_nat i :: ptr) = i" by (simp add: unat_of_nat)
  with assms show ?thesis by (simp add: memcpy_def)
qed

lemma unat_add_of_nat:
  fixes p :: ptr
  assumes "unat p + i < 2 ^ 64"
  shows "unat (p + word_of_nat i) = unat p + i"
proof -
  from assms have "i < 2 ^ 64" by simp
  then have "unat (word_of_nat i :: ptr) = i" by (simp add: unat_of_nat)
  with assms show ?thesis by (simp add: unat_add_numeral)
qed

lemma Reallocate_else:
  assumes "\<not> (Objects + Capacity * sz = CurPtr F \<and> CurPtr F + MinGrowth * sz \<le> End F)"
  shows "Reallocate sz al malloc Objects Capacity MinGrowth F
    = (case Allocate sz al malloc (Capacity + Growth_of Capacity MinGrowth) F of
         Inl e \<Rightarrow> Inl e
       | Inr (p, F1) \<Rightarrow>
           Inr (p, Capacity + Growth_of Capacity MinGrowth,
                F1\<lparr>memory := memcpy (memory F1) p Objects (Capacity * sz)\<rparr>))"
  unfolding Reallocate_def Let_def Growth_of_def
  by (subst if_not_P [OF assms]) (rule refl)

lemma Reallocate_moves:
  fixes Capacity MinGrowth sz :: size_t
  defines "G \<equiv> ideal_Growth (unat Capacity) (unat MinGrowth)"
  defines "N \<equiv> Capacity + Growth_of Capacity MinGrowth"
  assumes al: "valid_alignof al" and sz: "0 < unat sz"
    and nw: "roundup (unat (CurPtr F)) (unat al) + (unat Capacity + G) * unat sz < 2 ^ 64"
    and other: "\<not> (Objects + Capacity * sz = CurPtr F
                  \<and> unat (CurPtr F) + unat MinGrowth * unat sz \<le> unat (End F))"
    and held: "region_held F Objects (unat Capacity * unat sz)"
    and fresh: "unat (End F) < roundup (unat (CurPtr F)) (unat al) + (unat Capacity + G) * unat sz
                  \<longrightarrow> malloc_fresh malloc al F (N * sz) Objects (Capacity * sz)"
  shows "\<exists>p F1.
      Reallocate sz al malloc Objects Capacity MinGrowth F
        = Inr (p, N, F1\<lparr>memory := memcpy (memory F1) p Objects (Capacity * sz)\<rparr>)
      \<and> Allocate sz al malloc N F = Inr (p, F1)
      \<and> unat N = unat Capacity + G
      \<and> p \<noteq> Objects
      \<and> (\<forall>i < unat Capacity * unat sz.
            memcpy (memory F1) p Objects (Capacity * sz) (p + word_of_nat i)
              = memory F (Objects + word_of_nat i))"
proof -
  let ?c = "roundup (unat (CurPtr F)) (unat al)"
  have c_ge: "unat (CurPtr F) \<le> ?c"
    using valid_alignof_pos [OF al] by (simp add: roundup_ge)
  have Gb: "unat MinGrowth \<le> G" "4 \<le> G" "2 * unat Capacity \<le> G"
    unfolding G_def by (rule ideal_Growth_bounds)+
  define T where "T = (unat Capacity + G) * unat sz"
  have nwT: "?c + T < 2 ^ 64" using nw by (simp add: T_def)
  have le_mult: "unat Capacity + G \<le> T"
    unfolding T_def using sz by simp
  with nwT have CG: "unat Capacity + G < 2 ^ 64" by linarith
  with Gb(3) have "unat Capacity * 2 < 2 ^ 64" by simp
  from Growth_of_ideal [OF this, of MinGrowth]
  have g: "unat (Growth_of Capacity MinGrowth) = G" by (simp add: G_def)
  have N: "unat N = unat Capacity + G"
    unfolding N_def using CG g by (simp add: unat_add_numeral)
  have NT: "unat N * unat sz = T" by (simp add: N T_def)
  have old_le: "unat Capacity * unat sz \<le> T"
    unfolding T_def by simp
  with nwT have "unat Capacity * unat sz < 2 ^ 64" by linarith
  then have old: "unat (Capacity * sz) = unat Capacity * unat sz"
    by (rule unat_mult_no_wrap)
  have min_le: "unat MinGrowth * unat sz \<le> T"
    unfolding T_def using Gb(1) by (simp add: mult_le_mono1 trans_le_add2)
  have nwN: "?c + unat N * unat sz < 2 ^ 64" using nwT NT by simp
  have "0 < unat Capacity + G" using Gb(2) by simp
  with le_mult have posT: "0 < T" by linarith
  then have pos: "0 < unat N * unat sz" using NT by simp
  \<comment> \<open>the test of the code is the test in unbounded arithmetic\<close>
  have sum: "unat (CurPtr F) + unat MinGrowth * unat sz < 2 ^ 64"
    using nwT c_ge min_le by linarith
  then have "unat MinGrowth * unat sz < 2 ^ 64" by linarith
  then have "unat (MinGrowth * sz) = unat MinGrowth * unat sz"
    by (intro unat_mult_no_wrap)
  with sum have "unat (CurPtr F + MinGrowth * sz) = unat (CurPtr F) + unat MinGrowth * unat sz"
    by (simp add: unat_add_numeral)
  then have test: "CurPtr F + MinGrowth * sz \<le> End F
      \<longleftrightarrow> unat (CurPtr F) + unat MinGrowth * unat sz \<le> unat (End F)"
    by (simp add: word_le_nat_alt)
  with other have branch: "\<not> (Objects + Capacity * sz = CurPtr F \<and> CurPtr F + MinGrowth * sz \<le> End F)"
    by simp
  have R: "Reallocate sz al malloc Objects Capacity MinGrowth F
      = Inr (p, N, F1\<lparr>memory := memcpy (memory F1) p Objects (Capacity * sz)\<rparr>)"
    if "Allocate sz al malloc N F = Inr (p, F1)" for p F1
    using that unfolding Reallocate_else [OF branch] N_def by simp
  have copy: "memcpy (memory F1) p Objects (Capacity * sz) (p + word_of_nat i)
      = memory F1 (Objects + word_of_nat i)" if "i < unat Capacity * unat sz" for i p F1
    using that old by (simp add: memcpy_copies)
  show ?thesis
  proof (cases "?c + unat N * unat sz \<le> unat (End F)")
    case True
    let ?p = "align (CurPtr F) al"
    let ?F1 = "F\<lparr>CurPtr := ?p + N * sz\<rparr>"
    have A: "Allocate sz al malloc N F = Inr (?p, ?F1)"
      by (rule Allocate_fits [OF al True])
    have p: "unat ?p = ?c" by (rule Allocate_in_place(1) [OF al nwN])
    have "?p \<noteq> Objects"
    proof
      assume eq: "?p = Objects"
      from held show False
        unfolding region_held_def
      proof (elim disjE conjE)
        assume h: "unat Objects + unat Capacity * unat sz \<le> unat (CurPtr F)"
        from eq p have po: "unat Objects = ?c" by simp
        from h po c_ge have z: "unat Capacity * unat sz = 0" by linarith
        from h po c_ge have f: "unat Objects = unat (CurPtr F)" by linarith
        from z old have "unat (Capacity * sz) = 0" by (simp only:)
        then have "Capacity * sz = 0" by (simp only: unat_eq_0)
        moreover from f have "Objects = CurPtr F" by (simp add: word_unat_eq_iff)
        ultimately have "Objects + Capacity * sz = CurPtr F" by simp
        moreover have "unat (CurPtr F) + unat MinGrowth * unat sz \<le> unat (End F)"
          using True NT c_ge min_le by linarith
        ultimately show False using other by simp
      next
        assume "unat (End F) \<le> unat Objects"
        moreover from eq p have "unat Objects = ?c" by simp
        ultimately show False using True pos by linarith
      qed
    qed
    then have ne: "?p \<noteq> Objects" .
    have "\<forall>i < unat Capacity * unat sz.
        memcpy (memory ?F1) ?p Objects (Capacity * sz) (?p + word_of_nat i)
          = memory F (Objects + word_of_nat i)"
      using copy [of _ ?F1 ?p] by simp
    with R [OF A] A N ne show ?thesis by blast
  next
    case False
    define S1 where "S1 = new_SlabSize F (N * sz)"
    define ns where "ns = malloc (sizeof_Slab + S1)"
    from False fresh NT have "malloc_fresh malloc al F (N * sz) Objects (Capacity * sz)"
      by (simp add: T_def)
    then have ns0: "ns \<noteq> 0"
      and rng: "unat ns + unat sizeof_Slab + unat S1 < 2 ^ 64"
      and aligned: "align (ns + sizeof_Slab) al = ns + sizeof_Slab"
      and apart: "unat Objects + unat (Capacity * sz) \<le> unat ns
                  \<or> unat ns + unat sizeof_Slab + unat S1 \<le> unat Objects"
      by (simp_all add: malloc_fresh_def Let_def S1_def ns_def)
    let ?p = "ns + sizeof_Slab"
    let ?F1 = "F\<lparr>CurPtr := ?p + N * sz, End := ?p + S1, CurrentSlab := ns, SlabSize := S1,
                 memory := store_ptr (memory F) ns (CurrentSlab F)\<rparr>"
    from False have nofit: "unat (End F) < ?c + unat N * unat sz" by simp
    have A: "Allocate sz al malloc N F = Inr (?p, ?F1)"
      unfolding S1_def
      by (rule Allocate_new_slab [where malloc = malloc,
            OF al nwN nofit ns_def [unfolded S1_def, symmetric] ns0 aligned])
    have p: "unat ?p = unat ns + unat sizeof_Slab"
      using rng by (simp add: unat_add_numeral)
    have "N * sz \<le> S1" by (simp add: S1_def new_SlabSize_def)
    then have "unat (N * sz) \<le> unat S1" by (simp only: word_le_nat_alt)
    moreover have "unat (N * sz) = unat N * unat sz"
      by (rule Allocate_in_place(2) [OF al nwN])
    ultimately have S1pos: "0 < unat S1" using pos by linarith
    have hdr: "0 < unat sizeof_Slab" by (simp add: sizeof_Slab_def)
    have "?p \<noteq> Objects"
    proof
      assume "?p = Objects"
      with p have "unat Objects = unat ns + unat sizeof_Slab" by simp
      with apart S1pos hdr show False by linarith
    qed
    moreover have "memory ?F1 (Objects + word_of_nat i) = memory F (Objects + word_of_nat i)"
      if i: "i < unat Capacity * unat sz" for i
    proof -
      have wrap: "unat Objects + unat Capacity * unat sz \<le> 2 ^ 64"
        using held unat_lt_2p64 [of "CurPtr F"] by (auto simp: region_held_def)
      with i have u: "unat (Objects + word_of_nat i) = unat Objects + i"
        by (intro unat_add_of_nat) simp
      have "unat ns + unat sizeof_Slab \<le> 2 ^ 64" using rng by simp
      from in_block_nat [OF this] u i apart old
      have "\<not> in_block (Objects + word_of_nat i) ns sizeof_Slab"
        by auto
      then show ?thesis by (simp add: store_ptr_outside)
    qed
    ultimately have ne: "?p \<noteq> Objects"
      and keep: "\<And>i. i < unat Capacity * unat sz \<Longrightarrow>
        memory ?F1 (Objects + word_of_nat i) = memory F (Objects + word_of_nat i)"
      by blast+
    have "\<forall>i < unat Capacity * unat sz.
        memcpy (memory ?F1) ?p Objects (Capacity * sz) (?p + word_of_nat i)
          = memory F (Objects + word_of_nat i)"
      using copy [of _ ?F1 ?p] keep by (simp only:) blast
    with R [OF A] A N ne show ?thesis by blast
  qed
qed

text \<open>
  Where the sizes do not wrap, an array grows as expected.  First part: when the region ends exactly at the
  frontier and the current slab has room for \<open>MinGrowth\<close> more elements, the call
  returns the same base address and \<open>Capacity + MinGrowth\<close>, moves the frontier by the
  size of \<open>MinGrowth\<close> elements and changes nothing else, the memory included.  Second
  part: otherwise, for a region the factory has handed out, if the aligned frontier plus
  the size of \<open>Capacity + Growth\<close> elements is below \<open>2^64\<close> and \<open>malloc\<close>, when a
  slab is needed, returns a fresh block, then a region of \<open>Capacity + Growth\<close> elements
  is allocated, the bytes of the old \<open>Capacity\<close> elements are found at the new base
  address, which differs from the old one, and the growth is at least \<open>MinGrowth\<close>, at
  least 4 and at least the old capacity.
\<close>

theorem Reallocate_grows:
  "(Objects + Capacity * sz = CurPtr F
      \<and> unat (CurPtr F) + unat MinGrowth * unat sz \<le> unat (End F)
    \<longrightarrow> Reallocate sz al malloc Objects Capacity MinGrowth F
          = Inr (Objects, Capacity + MinGrowth, F\<lparr>CurPtr := CurPtr F + MinGrowth * sz\<rparr>)
        \<and> unat (CurPtr F + MinGrowth * sz) = unat (CurPtr F) + unat MinGrowth * unat sz)
   \<and> (valid_alignof al \<and> 0 < unat sz
        \<and> roundup (unat (CurPtr F)) (unat al)
             + (unat Capacity + ideal_Growth (unat Capacity) (unat MinGrowth)) * unat sz < 2 ^ 64
        \<and> \<not> (Objects + Capacity * sz = CurPtr F
               \<and> unat (CurPtr F) + unat MinGrowth * unat sz \<le> unat (End F))
        \<and> region_held F Objects (unat Capacity * unat sz)
        \<and> (unat (End F) < roundup (unat (CurPtr F)) (unat al)
               + (unat Capacity + ideal_Growth (unat Capacity) (unat MinGrowth)) * unat sz
             \<longrightarrow> malloc_fresh malloc al F ((Capacity + Growth_of Capacity MinGrowth) * sz)
                   Objects (Capacity * sz))
      \<longrightarrow> (\<exists>p F1.
            Reallocate sz al malloc Objects Capacity MinGrowth F
              = Inr (p, Capacity + Growth_of Capacity MinGrowth,
                     F1\<lparr>memory := memcpy (memory F1) p Objects (Capacity * sz)\<rparr>)
            \<and> Allocate sz al malloc (Capacity + Growth_of Capacity MinGrowth) F = Inr (p, F1)
            \<and> p \<noteq> Objects
            \<and> (\<forall>i < unat Capacity * unat sz.
                  memcpy (memory F1) p Objects (Capacity * sz) (p + word_of_nat i)
                    = memory F (Objects + word_of_nat i))
            \<and> unat (Capacity + Growth_of Capacity MinGrowth)
                 = unat Capacity + ideal_Growth (unat Capacity) (unat MinGrowth)
            \<and> unat MinGrowth \<le> ideal_Growth (unat Capacity) (unat MinGrowth)
            \<and> 4 \<le> ideal_Growth (unat Capacity) (unat MinGrowth)
            \<and> unat Capacity \<le> ideal_Growth (unat Capacity) (unat MinGrowth)))"
proof (intro conjI impI; elim conjE)
  assume "Objects + Capacity * sz = CurPtr F"
    "unat (CurPtr F) + unat MinGrowth * unat sz \<le> unat (End F)"
  then show "Reallocate sz al malloc Objects Capacity MinGrowth F
          = Inr (Objects, Capacity + MinGrowth, F\<lparr>CurPtr := CurPtr F + MinGrowth * sz\<rparr>)"
    and "unat (CurPtr F + MinGrowth * sz) = unat (CurPtr F) + unat MinGrowth * unat sz"
    by (rule Reallocate_in_place)+
next
  assume "valid_alignof al" "0 < unat sz"
    "roundup (unat (CurPtr F)) (unat al)
       + (unat Capacity + ideal_Growth (unat Capacity) (unat MinGrowth)) * unat sz < 2 ^ 64"
    "\<not> (Objects + Capacity * sz = CurPtr F
         \<and> unat (CurPtr F) + unat MinGrowth * unat sz \<le> unat (End F))"
    "region_held F Objects (unat Capacity * unat sz)"
    "unat (End F) < roundup (unat (CurPtr F)) (unat al)
         + (unat Capacity + ideal_Growth (unat Capacity) (unat MinGrowth)) * unat sz
       \<longrightarrow> malloc_fresh malloc al F ((Capacity + Growth_of Capacity MinGrowth) * sz)
             Objects (Capacity * sz)"
  from Reallocate_moves [OF this] ideal_Growth_bounds(1-3) [where Capacity = "unat Capacity" and MinGrowth = "unat MinGrowth"]
  show "\<exists>p F1.
            Reallocate sz al malloc Objects Capacity MinGrowth F
              = Inr (p, Capacity + Growth_of Capacity MinGrowth,
                     F1\<lparr>memory := memcpy (memory F1) p Objects (Capacity * sz)\<rparr>)
            \<and> Allocate sz al malloc (Capacity + Growth_of Capacity MinGrowth) F = Inr (p, F1)
            \<and> p \<noteq> Objects
            \<and> (\<forall>i < unat Capacity * unat sz.
                  memcpy (memory F1) p Objects (Capacity * sz) (p + word_of_nat i)
                    = memory F (Objects + word_of_nat i))
            \<and> unat (Capacity + Growth_of Capacity MinGrowth)
                 = unat Capacity + ideal_Growth (unat Capacity) (unat MinGrowth)
            \<and> unat MinGrowth \<le> ideal_Growth (unat Capacity) (unat MinGrowth)
            \<and> 4 \<le> ideal_Growth (unat Capacity) (unat MinGrowth)
            \<and> unat Capacity \<le> ideal_Growth (unat Capacity) (unat MinGrowth)"
    by blast
qed

theorem Reallocate_grows_witness:
  "Reallocate 8 8 (\<lambda>size. 0) 4104 3 2
     ((NodeFactory_init 24 (\<lambda>a. 0))
        \<lparr>CurPtr := 4128, End := 8904, CurrentSlab := 4096, SlabSize := 4800,
         memory := store_ptr (\<lambda>a. 0) 4096 0\<rparr>)
   = Inr (4104, 5,
          (NodeFactory_init 24 (\<lambda>a. 0))
            \<lparr>CurPtr := 4144, End := 8904, CurrentSlab := 4096, SlabSize := 4800,
             memory := store_ptr (\<lambda>a. 0) 4096 0\<rparr>)
   \<and> region_held ((NodeFactory_init 24 (\<lambda>a. 0))
        \<lparr>CurPtr := 4128, End := 8904, CurrentSlab := 4096, SlabSize := 4800,
         memory := store_ptr (\<lambda>a. 0) 4096 0\<rparr>) 4104 (unat (2 :: size_t) * unat (8 :: size_t))
   \<and> malloc_fresh (\<lambda>size. 16384) 8 ((NodeFactory_init 24 (\<lambda>a. 0))
        \<lparr>CurPtr := 4128, End := 8904, CurrentSlab := 4096, SlabSize := 4800,
         memory := store_ptr (\<lambda>a. 0) 4096 0\<rparr>) ((2 + Growth_of 2 1200) * 8) 4104 (2 * 8)
   \<and> Reallocate 8 8 (\<lambda>size. 16384) 4104 2 1200
     ((NodeFactory_init 24 (\<lambda>a. 0))
        \<lparr>CurPtr := 4128, End := 8904, CurrentSlab := 4096, SlabSize := 4800,
         memory := store_ptr (\<lambda>a. 0) 4096 0\<rparr>)
   = Inr (16392, 1202,
          (NodeFactory_init 24 (\<lambda>a. 0))
            \<lparr>CurPtr := 26008, End := 26008, CurrentSlab := 16384, SlabSize := 9616,
             memory := memcpy (store_ptr (store_ptr (\<lambda>a. 0) 4096 0) 16384 4096) 16392 4104 16\<rparr>)
   \<and> (16392 :: ptr) \<noteq> 4104"
proof -
  let ?F = "(NodeFactory_init 24 (\<lambda>a. 0))
        \<lparr>CurPtr := 4128, End := 8904, CurrentSlab := 4096, SlabSize := 4800,
         memory := store_ptr (\<lambda>a. 0) 4096 0\<rparr>"
  have a: "(4104 :: ptr) + 3 * 8 = CurPtr ?F
      \<and> unat (CurPtr ?F) + unat (2 :: size_t) * unat (8 :: size_t) \<le> unat (End ?F)"
    by simp
  have g: "Growth_of 2 1200 = 1200" "ideal_Growth (unat (2 :: size_t)) (unat (1200 :: size_t)) = 1200"
    by (simp_all add: Growth_of_def ideal_Growth_def word_le_nat_alt word_less_nat_alt)
  have h: "region_held ?F 4104 (unat (2 :: size_t) * unat (8 :: size_t))"
    by (simp add: region_held_def)
  have f: "malloc_fresh (\<lambda>size. 16384) 8 ?F ((2 + Growth_of 2 1200) * 8) 4104 (2 * 8)"
    by (simp add: g malloc_fresh_def new_SlabSize_def sizeof_Slab_def align_def max_def
        word_le_nat_alt)
  have b: "valid_alignof 8 \<and> 0 < unat (8 :: size_t)
        \<and> roundup (unat (CurPtr ?F)) (unat (8 :: size_t))
             + (unat (2 :: size_t) + ideal_Growth (unat (2 :: size_t)) (unat (1200 :: size_t)))
               * unat (8 :: size_t) < 2 ^ 64
        \<and> \<not> ((4104 :: ptr) + 2 * 8 = CurPtr ?F
               \<and> unat (CurPtr ?F) + unat (1200 :: size_t) * unat (8 :: size_t) \<le> unat (End ?F))
        \<and> region_held ?F 4104 (unat (2 :: size_t) * unat (8 :: size_t))
        \<and> (unat (End ?F) < roundup (unat (CurPtr ?F)) (unat (8 :: size_t))
               + (unat (2 :: size_t) + ideal_Growth (unat (2 :: size_t)) (unat (1200 :: size_t)))
                 * unat (8 :: size_t)
             \<longrightarrow> malloc_fresh (\<lambda>size. 16384) 8 ?F ((2 + Growth_of 2 1200) * 8) 4104 (2 * 8))"
    using h f by (simp add: g valid_alignof_def roundup_def ideal_Growth_def)
  note inst = Reallocate_grows [where F = ?F and Objects = 4104 and sz = 8 and al = 8]
  from inst [where Capacity = 3 and MinGrowth = 2 and malloc = "\<lambda>size. 0", THEN conjunct1, THEN mp, OF a]
  have r1: "Reallocate 8 8 (\<lambda>size. 0) 4104 3 2 ?F
      = Inr (4104, 5, (NodeFactory_init 24 (\<lambda>a. 0))
            \<lparr>CurPtr := 4144, End := 8904, CurrentSlab := 4096, SlabSize := 4800,
             memory := store_ptr (\<lambda>a. 0) 4096 0\<rparr>)"
    by simp
  from inst [where Capacity = 2 and MinGrowth = 1200 and malloc = "\<lambda>size. 16384",
      THEN conjunct2, THEN mp, OF b]
  obtain p F1 where "Reallocate 8 8 (\<lambda>size. 16384) 4104 2 1200 ?F
      = Inr (p, 2 + Growth_of 2 1200, F1\<lparr>memory := memcpy (memory F1) p 4104 (2 * 8)\<rparr>)"
    and ne: "p \<noteq> 4104"
    by blast
  moreover have r2: "Reallocate 8 8 (\<lambda>size. 16384) 4104 2 1200 ?F
   = Inr (16392, 1202,
          (NodeFactory_init 24 (\<lambda>a. 0))
            \<lparr>CurPtr := 26008, End := 26008, CurrentSlab := 16384, SlabSize := 9616,
             memory := memcpy (store_ptr (store_ptr (\<lambda>a. 0) 4096 0) 16384 4096) 16392 4104 16\<rparr>)"
    by (simp add: Reallocate_def NodeFactory_init_def Allocate_def align_def sizeof_Slab_def Let_def
        word_less_nat_alt word_le_nat_alt max_def)
  ultimately have "p = 16392" by simp
  with ne have "(16392 :: ptr) \<noteq> 4104" by simp
  with r1 h f r2 show ?thesis by blast
qed

text \<open>
  Claim C3.  \<open>Reallocate\<close> grows an array in place only if the array ends at the
  frontier and the slab has room for \<open>MinGrowth\<close> more elements, and otherwise
  allocates a fresh region and copies; its own comment says so (\<open>If Objects is
  allocated at the end of the current slab and the slab has enough free space ...
  Otherwise a new array of objects is allocated\<close>).  The code does not keep it: a fresh
  factory serves an array of three 8-byte elements (at 4104, frontier 4128, end of the
  slab 8904), and the array is then to grow by \<open>2^61\<close> elements.
  \<open>MinGrowth * sizeof(T)\<close> is computed without a check and wraps to 0; the slab has no
  room for the elements, yet the call reports the capacity \<open>3 + 2^61\<close> at the same
  address and allocates nothing.
\<close>

theorem Reallocate_wrapped_growth_in_place:
  "Allocate 8 8 (\<lambda>size. 4096) 3 (NodeFactory_init 24 (\<lambda>a. 0))
   = Inr (4104,
          (NodeFactory_init 24 (\<lambda>a. 0))
            \<lparr>CurPtr := 4128, End := 8904, CurrentSlab := 4096, SlabSize := 4800,
             memory := store_ptr (\<lambda>a. 0) 4096 0\<rparr>)
   \<and> Reallocate 8 8 (\<lambda>size. 0) 4104 3 2305843009213693952
     ((NodeFactory_init 24 (\<lambda>a. 0))
        \<lparr>CurPtr := 4128, End := 8904, CurrentSlab := 4096, SlabSize := 4800,
         memory := store_ptr (\<lambda>a. 0) 4096 0\<rparr>)
   = Inr (4104, 2305843009213693955,
          (NodeFactory_init 24 (\<lambda>a. 0))
            \<lparr>CurPtr := 4128, End := 8904, CurrentSlab := 4096, SlabSize := 4800,
             memory := store_ptr (\<lambda>a. 0) 4096 0\<rparr>)
   \<and> \<not> unat (4128 :: ptr) + unat (2305843009213693952 :: size_t) * unat (8 :: size_t)
         \<le> unat (8904 :: ptr)"
  by (simp add: Reallocate_def NodeFactory_init_def Allocate_def align_def sizeof_Slab_def
      Let_def word_less_nat_alt word_le_nat_alt max_def)

section \<open>Properties of the word list and the entry points\<close>

lemma recordWord_Some:
  assumes "words_inv D" "recordWord word D = Some D1"
  shows "words_inv D1" and "NumWords D1 = NumWords D + 1"
    and "take (nat (NumWords D1)) (Words D1) = take (nat (NumWords D)) (Words D) @ [word]"
proof -
  from assms have lt: "NumWords D < 26" and ge: "0 \<le> NumWords D" and len: "length (Words D) = 26"
    and D1: "D1 = D\<lparr>Words := (Words D)[nat (NumWords D) := word], NumWords := NumWords D + 1\<rparr>"
    by (auto simp: recordWord_def words_inv_def MaxNumWords_def split: if_splits)
  show "words_inv D1" using lt ge len by (simp add: D1 words_inv_def MaxNumWords_def)
  show "NumWords D1 = NumWords D + 1" by (simp add: D1)
  have "nat (NumWords D + 1) = Suc (nat (NumWords D))" using ge by simp
  moreover have "nat (NumWords D) < length (Words D)" using lt ge len by simp
  ultimately show "take (nat (NumWords D1)) (Words D1) = take (nat (NumWords D)) (Words D) @ [word]"
    by (simp add: D1 take_Suc_conv_app_nth)
qed

lemma recordWord_None: "words_inv D \<Longrightarrow> recordWord word D = None \<longleftrightarrow> NumWords D = 26"
  by (auto simp: recordWord_def words_inv_def MaxNumWords_def)

lemma recordWords_run:
  assumes "words_inv D"
  shows "(recordWords ws D = None \<longleftrightarrow> 26 < nat (NumWords D) + length ws)
       \<and> (\<forall>D1. recordWords ws D = Some D1 \<longrightarrow>
             words_inv D1 \<and> nat (NumWords D1) = nat (NumWords D) + length ws
             \<and> take (nat (NumWords D) + length ws) (Words D1)
                 = take (nat (NumWords D)) (Words D) @ ws)"
  using assms
proof (induction ws arbitrary: D)
  case Nil
  then have "NumWords D \<le> 26" by (simp add: words_inv_def MaxNumWords_def)
  then have "nat (NumWords D) \<le> 26" by linarith
  then show ?case using Nil by simp
next
  case (Cons word ws)
  show ?case
  proof (cases "recordWord word D")
    case None
    with Cons.prems have "NumWords D = 26" by (simp add: recordWord_None)
    with None show ?thesis by simp
  next
    case (Some D2)
    note r = recordWord_Some [OF Cons.prems Some]
    from Cons.prems have "0 \<le> NumWords D" by (simp add: words_inv_def)
    with r(2) have k: "nat (NumWords D2) = Suc (nat (NumWords D))" by simp
    from r(3) k have t: "take (Suc (nat (NumWords D))) (Words D2)
        = take (nat (NumWords D)) (Words D) @ [word]"
      by (simp only:)
    from Cons.IH [OF r(1)] have
      none: "recordWords ws D2 = None \<longleftrightarrow> 26 < nat (NumWords D2) + length ws"
      and some: "\<And>D1. recordWords ws D2 = Some D1 \<Longrightarrow>
             words_inv D1 \<and> nat (NumWords D1) = nat (NumWords D2) + length ws
             \<and> take (nat (NumWords D2) + length ws) (Words D1)
                 = take (nat (NumWords D2)) (Words D2) @ ws"
      by blast+
    have "recordWords (word # ws) D = recordWords ws D2" using Some by simp
    moreover have "nat (NumWords D2) + length ws = nat (NumWords D) + length (word # ws)"
      using k by simp
    moreover have "take (nat (NumWords D2)) (Words D2) @ ws
        = take (nat (NumWords D)) (Words D) @ word # ws"
      using t k by simp
    ultimately show ?thesis using none some by (simp only:) blast
  qed
qed

text \<open>
  Claim C9, on the word list as the spec describes it.  From an empty list of 26 slots,
  recording a sequence of words fails exactly when the sequence has more than 26 words;
  when it succeeds, the count is the number of words recorded and at most 26, an index
  \<open>i\<close> resolves exactly when \<open>0 \<le> i < count\<close>, to the \<open>i\<close>-th word recorded, every other
  index fails, and recording one more word fails exactly when 26 words are recorded.
\<close>

theorem word_list_bounds:
  assumes "NumWords D = 0" "length (Words D) = 26"
  shows "(recordWords ws D = None \<longleftrightarrow> 26 < length ws)
       \<and> (\<forall>D1. recordWords ws D = Some D1 \<longrightarrow>
             NumWords D1 = int (length ws) \<and> NumWords D1 \<le> MaxNumWords
             \<and> length (Words D1) = 26
             \<and> (\<forall>i. resolveWordIndex i D1
                      = (if 0 \<le> i \<and> i < int (length ws) then Some (ws ! nat i) else None))
             \<and> (\<forall>word. recordWord word D1 = None \<longleftrightarrow> length ws = 26))"
proof -
  from assms have inv: "words_inv D" by (simp add: words_inv_def MaxNumWords_def)
  note run = recordWords_run [OF inv, of ws]
  have "NumWords D1 = int (length ws) \<and> NumWords D1 \<le> MaxNumWords
             \<and> length (Words D1) = 26
             \<and> (\<forall>i. resolveWordIndex i D1
                      = (if 0 \<le> i \<and> i < int (length ws) then Some (ws ! nat i) else None))
             \<and> (\<forall>word. recordWord word D1 = None \<longleftrightarrow> length ws = 26)"
    if s: "recordWords ws D = Some D1" for D1
  proof -
    from run s assms(1) have i1: "words_inv D1" and n': "nat (NumWords D1) = length ws"
      and t: "take (length ws) (Words D1) = ws"
      by simp_all
    from i1 have "0 \<le> NumWords D1" by (simp add: words_inv_def)
    with n' have n: "NumWords D1 = int (length ws)" by linarith
    have "Words D1 ! nat i = ws ! nat i" if "0 \<le> i" "i < int (length ws)" for i
    proof -
      from that have "nat i < length ws" by simp
      then have "take (length ws) (Words D1) ! nat i = Words D1 ! nat i" by simp
      with t show ?thesis by simp
    qed
    moreover from i1 n have "int (length ws) \<le> 26" by (simp add: words_inv_def MaxNumWords_def)
    ultimately have "resolveWordIndex i D1
        = (if 0 \<le> i \<and> i < int (length ws) then Some (ws ! nat i) else None)" for i
      using n by (auto simp: resolveWordIndex_def MaxNumWords_def)
    moreover have "recordWord word D1 = None \<longleftrightarrow> length ws = 26" for word
      using recordWord_None [OF i1] n by simp
    ultimately show ?thesis using i1 n by (simp add: words_inv_def)
  qed
  moreover have "recordWords ws D = None \<longleftrightarrow> 26 < length ws"
    using run assms(1) by simp
  ultimately show ?thesis by blast
qed

theorem word_list_bounds_witness:
  "NumWords (Demangler_init 24 (\<lambda>a. 0)) = 0
   \<and> length (Words (Demangler_init 24 (\<lambda>a. 0))) = 26
   \<and> recordWords (replicate 27 ''ab'') (Demangler_init 24 (\<lambda>a. 0)) = None
   \<and> map_option NumWords (recordWords [''Hello'', ''World''] (Demangler_init 24 (\<lambda>a. 0))) = Some 2
   \<and> map_option (resolveWord CHR ''B'') (recordWords [''Hello'', ''World''] (Demangler_init 24 (\<lambda>a. 0)))
        = Some (Some ''World'')
   \<and> map_option (resolveWord CHR ''C'') (recordWords [''Hello'', ''World''] (Demangler_init 24 (\<lambda>a. 0)))
        = Some None"
proof -
  let ?D = "Demangler_init 24 (\<lambda>a. 0)"
  have a: "NumWords ?D = 0" "length (Words ?D) = 26" by (simp_all add: Demangler_init_def)
  from word_list_bounds [OF a, of "replicate 27 ''ab''"]
  have n: "recordWords (replicate 27 ''ab'') ?D = None" by simp
  from word_list_bounds [OF a, of "[''Hello'', ''World'']"]
  obtain D1 where r: "recordWords [''Hello'', ''World''] ?D = Some D1"
    by (cases "recordWords [''Hello'', ''World''] ?D") auto
  with word_list_bounds [OF a, of "[''Hello'', ''World'']"]
  have "NumWords D1 = 2" "resolveWordIndex 1 D1 = Some ''World''" "resolveWordIndex 2 D1 = None"
    by simp_all
  then have "NumWords D1 = 2" "resolveWord CHR ''B'' D1 = Some ''World''"
    "resolveWord CHR ''C'' D1 = None"
    by (simp_all add: resolveWord_def)
  with a n r show ?thesis by simp
qed

lemma parseAndPushNodes_exhausted:
  assumes "parseAndPushNodes op D = Some (ok, D1)" "ok"
  shows "StringRef_size (Text D1) \<le> Pos D1"
proof -
  have "fst (ok, D1) \<longrightarrow> StringRef_size (Text (snd (ok, D1))) \<le> Pos (snd (ok, D1))"
  proof (rule parseAndPushNodes.raw_induct
      [where P = "\<lambda>f D r. fst r \<longrightarrow> StringRef_size (Text (snd r)) \<le> Pos (snd r)",
        OF _ assms(1)])
    fix loop :: "(Demangler \<Rightarrow> NodePointer \<times> Demangler) \<Rightarrow> Demangler \<Rightarrow> (bool \<times> Demangler) option"
      and f D r
    assume IH: "\<And>g D r. loop g D = Some r \<Longrightarrow>
        fst r \<longrightarrow> StringRef_size (Text (snd r)) \<le> Pos (snd r)"
      and eq: "(if StringRef_size (Text D) \<le> Pos D then Some (True, D)
          else case f D of (None, D1) \<Rightarrow> Some (False, D1)
               | (Some nd, D1) \<Rightarrow> loop f (pushNode (Some nd) D1)) = Some r"
    show "fst r \<longrightarrow> StringRef_size (Text (snd r)) \<le> Pos (snd r)"
    proof (cases "StringRef_size (Text D) \<le> Pos D")
      case True
      with eq show ?thesis by auto
    next
      case False
      obtain x D2 where o: "f D = (x, D2)" by (cases "f D")
      show ?thesis
      proof (cases x)
        case None
        with eq False o show ?thesis by auto
      next
        case (Some nd)
        with eq False o have "loop f (pushNode (Some nd) D2) = Some r" by simp
        then show ?thesis by (rule IH)
      qed
    qed
  qed
  with assms(2) show ?thesis by simp
qed

lemma parseAndPushNodes_total:
  assumes "consumes_input op"
  shows "\<exists>res. parseAndPushNodes op D = Some res"
proof (induction "unat (StringRef_size (Text D)) - unat (Pos D)" arbitrary: D rule: less_induct)
  case less
  show ?case
  proof (cases "StringRef_size (Text D) \<le> Pos D")
    case True
    then show ?thesis by (subst parseAndPushNodes.simps) auto
  next
    case False
    then have lt: "Pos D < StringRef_size (Text D)" by simp
    obtain r D1 where o: "op D = (r, D1)" by (cases "op D")
    show ?thesis
    proof (cases r)
      case None
      with o False show ?thesis by (subst parseAndPushNodes.simps) auto
    next
      case (Some nd)
      with assms lt o have t: "Text D1 = Text D" and p: "Pos D < Pos D1"
        by (auto simp: consumes_input_def)
      let ?D2 = "pushNode (Some nd) D1"
      have "unat (StringRef_size (Text ?D2)) - unat (Pos ?D2)
          < unat (StringRef_size (Text D)) - unat (Pos D)"
        using t p lt by (simp add: pushNode_def word_less_nat_alt)
      from less [OF this] obtain res where "parseAndPushNodes op ?D2 = Some res" by blast
      with o Some False show ?thesis by (subst parseAndPushNodes.simps) auto
    qed
  qed
qed

lemma topLevel_Some:
  assumes "topLevel (ok, D1) = (Some nd, D2)"
  shows "ok \<and> D2 = D1 \<and> (\<exists>p. NodeStack D1 = [NodeWithPos (Some nd) p])"
proof -
  from assms have ok: "ok" and len: "length (NodeStack D1) = 1"
    and nd: "Node (last (NodeStack D1)) = Some nd" and D: "D2 = D1"
    by (auto simp: topLevel_def split: if_splits)
  from len obtain e where e: "NodeStack D1 = [e]"
    by (cases "NodeStack D1") auto
  with nd have "e = NodeWithPos (Some nd) (PosAtPush e)" by (cases e) simp
  with e ok D show ?thesis by metis
qed

lemma topLevel_None:
  "\<not> ok \<or> length (NodeStack D1) \<noteq> 1 \<Longrightarrow> topLevel (ok, D1) = (None, D1)"
  by (auto simp: topLevel_def)

text \<open>
  Claim C1, on the entry points as the spec describes them.  When \<open>demangleType\<close> or
  \<open>demangleSymbol\<close> returns a node, the loop has ended with the input exhausted and no
  null production, and the stack holds exactly that node.  When the loop ends after a
  null production or with a stack depth other than one, or when the prefix of a symbol
  is missing, the result is null.  With a dispatcher that consumes input whenever it
  returns a node, both entry points return for every input string.
\<close>

theorem entry_points_tree_or_null:
  "(demangleType op MangledName D = Some (Some nd, D1) \<longrightarrow>
      parseAndPushNodes op (init MangledName D) = Some (True, D1)
      \<and> (\<exists>p. NodeStack D1 = [NodeWithPos (Some nd) p])
      \<and> StringRef_size (Text D1) \<le> Pos D1)
   \<and> (demangleSymbol op MangledName D = Some (Some nd, D2) \<longrightarrow>
      (\<exists>D0. nextIf_str ''_T0'' (init MangledName D) = (True, D0)
            \<and> parseAndPushNodes op D0 = Some (True, D2))
      \<and> (\<exists>p. NodeStack D2 = [NodeWithPos (Some nd) p])
      \<and> StringRef_size (Text D2) \<le> Pos D2)
   \<and> (parseAndPushNodes op (init MangledName D) = Some (ok, D3)
        \<and> (\<not> ok \<or> length (NodeStack D3) \<noteq> 1)
      \<longrightarrow> demangleType op MangledName D = Some (None, D3))
   \<and> (nextIf_str ''_T0'' (init MangledName D) = (True, D4)
        \<and> parseAndPushNodes op D4 = Some (ok', D5)
        \<and> (\<not> ok' \<or> length (NodeStack D5) \<noteq> 1)
      \<longrightarrow> demangleSymbol op MangledName D = Some (None, D5))
   \<and> (nextIf_str ''_T0'' (init MangledName D) = (False, D6)
      \<longrightarrow> demangleSymbol op MangledName D = Some (None, D6))
   \<and> (consumes_input op \<longrightarrow>
        (\<exists>res. demangleType op MangledName D = Some res)
        \<and> (\<exists>res. demangleSymbol op MangledName D = Some res))"
proof (intro conjI impI)
  assume a: "demangleType op MangledName D = Some (Some nd, D1)"
  then obtain ok Dx where l: "parseAndPushNodes op (init MangledName D) = Some (ok, Dx)"
    and t: "topLevel (ok, Dx) = (Some nd, D1)"
    by (auto simp: demangleType_def)
  from topLevel_Some [OF t] have ok: "ok" and Dx: "Dx = D1"
    and st: "\<exists>p. NodeStack D1 = [NodeWithPos (Some nd) p]" by auto
  from l ok Dx show "parseAndPushNodes op (init MangledName D) = Some (True, D1)" by simp
  from st show "\<exists>p. NodeStack D1 = [NodeWithPos (Some nd) p]" .
  from parseAndPushNodes_exhausted [OF l ok] Dx show "StringRef_size (Text D1) \<le> Pos D1" by simp
next
  assume a: "demangleSymbol op MangledName D = Some (Some nd, D2)"
  obtain b D0 where n: "nextIf_str ''_T0'' (init MangledName D) = (b, D0)"
    by (cases "nextIf_str ''_T0'' (init MangledName D)")
  with a have b: "b" by (cases b) (auto simp: demangleSymbol_def)
  with a n obtain ok Dx where l: "parseAndPushNodes op D0 = Some (ok, Dx)"
    and t: "topLevel (ok, Dx) = (Some nd, D2)"
    by (auto simp: demangleSymbol_def)
  from topLevel_Some [OF t] have ok: "ok" and Dx: "Dx = D2"
    and st: "\<exists>p. NodeStack D2 = [NodeWithPos (Some nd) p]" by auto
  from n b l ok Dx show "\<exists>D0. nextIf_str ''_T0'' (init MangledName D) = (True, D0)
            \<and> parseAndPushNodes op D0 = Some (True, D2)" by auto
  from st show "\<exists>p. NodeStack D2 = [NodeWithPos (Some nd) p]" .
  from parseAndPushNodes_exhausted [OF l ok] Dx show "StringRef_size (Text D2) \<le> Pos D2" by simp
next
  assume "parseAndPushNodes op (init MangledName D) = Some (ok, D3)
        \<and> (\<not> ok \<or> length (NodeStack D3) \<noteq> 1)"
  then show "demangleType op MangledName D = Some (None, D3)"
    by (simp add: demangleType_def topLevel_None)
next
  assume "nextIf_str ''_T0'' (init MangledName D) = (True, D4)
        \<and> parseAndPushNodes op D4 = Some (ok', D5)
        \<and> (\<not> ok' \<or> length (NodeStack D5) \<noteq> 1)"
  then show "demangleSymbol op MangledName D = Some (None, D5)"
    by (simp add: demangleSymbol_def topLevel_None)
next
  assume "nextIf_str ''_T0'' (init MangledName D) = (False, D6)"
  then show "demangleSymbol op MangledName D = Some (None, D6)"
    by (simp add: demangleSymbol_def)
next
  assume c: "consumes_input op"
  from parseAndPushNodes_total [OF c, of "init MangledName D"]
  obtain res where "parseAndPushNodes op (init MangledName D) = Some res" ..
  then show "\<exists>res. demangleType op MangledName D = Some res"
    by (simp add: demangleType_def)
  show "\<exists>res. demangleSymbol op MangledName D = Some res"
  proof (cases "nextIf_str ''_T0'' (init MangledName D)")
    case (Pair b D0)
    from parseAndPushNodes_total [OF c, of D0]
    obtain res where "parseAndPushNodes op D0 = Some res" ..
    with Pair show ?thesis
      by (cases b) (simp_all add: demangleSymbol_def)
  qed
qed

theorem entry_points_tree_or_null_witness:
  "consumes_input
     (\<lambda>D. case nextChar D of (c, D1) \<Rightarrow>
        (if c = CHR ''i'' then Some (MkNode 1 NoPayload []) else None, D1))
   \<and> map_option fst (demangleType
        (\<lambda>D. case nextChar D of (c, D1) \<Rightarrow>
           (if c = CHR ''i'' then Some (MkNode 1 NoPayload []) else None, D1))
        ''i'' (Demangler_init 24 (\<lambda>a. 0))) = Some (Some (MkNode 1 NoPayload []))
   \<and> map_option fst (demangleType
        (\<lambda>D. case nextChar D of (c, D1) \<Rightarrow>
           (if c = CHR ''i'' then Some (MkNode 1 NoPayload []) else None, D1))
        ''ii'' (Demangler_init 24 (\<lambda>a. 0))) = Some None
   \<and> map_option fst (demangleSymbol
        (\<lambda>D. case nextChar D of (c, D1) \<Rightarrow>
           (if c = CHR ''i'' then Some (MkNode 1 NoPayload []) else None, D1))
        ''_T0i'' (Demangler_init 24 (\<lambda>a. 0))) = Some (Some (MkNode 1 NoPayload []))
   \<and> map_option fst (demangleSymbol
        (\<lambda>D. case nextChar D of (c, D1) \<Rightarrow>
           (if c = CHR ''i'' then Some (MkNode 1 NoPayload []) else None, D1))
        ''_T0x'' (Demangler_init 24 (\<lambda>a. 0))) = Some None
   \<and> map_option fst (demangleSymbol
        (\<lambda>D. case nextChar D of (c, D1) \<Rightarrow>
           (if c = CHR ''i'' then Some (MkNode 1 NoPayload []) else None, D1))
        ''i'' (Demangler_init 24 (\<lambda>a. 0))) = Some None"
proof -
  let ?op = "\<lambda>D. case nextChar D of (c, D1) \<Rightarrow>
        (if c = CHR ''i'' then Some (MkNode 1 NoPayload []) else None, D1)"
  let ?n = "MkNode 1 NoPayload []"
  let ?D = "Demangler_init 24 (\<lambda>a. 0)"
  note ev = init_def nextChar_def pushNode_def StringRef_size_def Demangler_init_def
    nextIf_str_def substr_def startswith_def word_le_nat_alt
  have c: "consumes_input ?op"
    unfolding consumes_input_def
  proof (intro allI impI, elim conjE)
    fix D nd D1
    assume lt: "Pos D < StringRef_size (Text D)" and o: "?op D = (Some nd, D1)"
    from lt have "\<not> StringRef_size (Text D) \<le> Pos D" by simp
    with o have D1: "D1 = D\<lparr>Pos := Pos D + 1\<rparr>"
      by (auto simp: nextChar_def split: if_splits)
    have "unat (Pos D) + unat (1 :: size_t) < 2 ^ 64"
      using lt unat_lt_2p64 [of "StringRef_size (Text D)"] by (simp add: word_less_nat_alt)
    then have "unat (Pos D + 1) = unat (Pos D) + unat (1 :: size_t)"
      by (rule unat_add_numeral)
    then have "Pos D < Pos D + 1" by (simp add: word_less_nat_alt)
    with D1 show "Text D1 = Text D \<and> Pos D < Pos D1" by simp
  qed
  have l1: "parseAndPushNodes ?op (init ''i'' ?D)
      = Some (True, ?D\<lparr>Text := ''i'', Pos := 1, NodeStack := [NodeWithPos (Some ?n) 1]\<rparr>)"
    by (subst parseAndPushNodes.simps, simp add: ev)+
  have l2: "parseAndPushNodes ?op (init ''ii'' ?D)
      = Some (True, ?D\<lparr>Text := ''ii'', Pos := 2,
                 NodeStack := [NodeWithPos (Some ?n) 1, NodeWithPos (Some ?n) 2]\<rparr>)"
    by (subst parseAndPushNodes.simps, simp add: ev)+
  have p3: "nextIf_str ''_T0'' (init ''_T0i'' ?D) = (True, ?D\<lparr>Text := ''_T0i'', Pos := 3\<rparr>)"
    by (simp add: ev)
  have l3: "parseAndPushNodes ?op (?D\<lparr>Text := ''_T0i'', Pos := 3\<rparr>)
      = Some (True, ?D\<lparr>Text := ''_T0i'', Pos := 4, NodeStack := [NodeWithPos (Some ?n) 4]\<rparr>)"
    by (subst parseAndPushNodes.simps, simp add: ev)+
  have p4: "nextIf_str ''_T0'' (init ''_T0x'' ?D) = (True, ?D\<lparr>Text := ''_T0x'', Pos := 3\<rparr>)"
    by (simp add: ev)
  have l4: "parseAndPushNodes ?op (?D\<lparr>Text := ''_T0x'', Pos := 3\<rparr>)
      = Some (False, ?D\<lparr>Text := ''_T0x'', Pos := 4\<rparr>)"
    by (subst parseAndPushNodes.simps, simp add: ev)+
  have p5: "nextIf_str ''_T0'' (init ''i'' ?D) = (False, ?D\<lparr>Text := ''i''\<rparr>)"
    by (simp add: ev)
  have e1: "demangleType ?op ''i'' ?D
      = Some (Some ?n, ?D\<lparr>Text := ''i'', Pos := 1, NodeStack := [NodeWithPos (Some ?n) 1]\<rparr>)"
    by (simp add: demangleType_def l1 topLevel_def)
  have e3: "demangleSymbol ?op ''_T0i'' ?D
      = Some (Some ?n, ?D\<lparr>Text := ''_T0i'', Pos := 4, NodeStack := [NodeWithPos (Some ?n) 4]\<rparr>)"
    by (simp add: demangleSymbol_def p3 l3 topLevel_def)
  note inst = entry_points_tree_or_null [where op = ?op and D = ?D]
  let ?D2 = "?D\<lparr>Text := ''ii'', Pos := 2,
                 NodeStack := [NodeWithPos (Some ?n) 1, NodeWithPos (Some ?n) 2]\<rparr>"
  have h2: "parseAndPushNodes ?op (init ''ii'' ?D) = Some (True, ?D2)
      \<and> (\<not> True \<or> length (NodeStack ?D2) \<noteq> 1)"
    using l2 by simp
  from inst [where MangledName = "''ii''" and ok = True and ?D3.0 = ?D2,
      THEN conjunct2, THEN conjunct2, THEN conjunct1, THEN mp, OF h2]
  have r2: "map_option fst (demangleType ?op ''ii'' ?D) = Some None" by simp
  let ?D4 = "?D\<lparr>Text := ''_T0x'', Pos := 3\<rparr>"
  let ?D5 = "?D\<lparr>Text := ''_T0x'', Pos := 4\<rparr>"
  have h4: "nextIf_str ''_T0'' (init ''_T0x'' ?D) = (True, ?D4)
      \<and> parseAndPushNodes ?op ?D4 = Some (False, ?D5)
      \<and> (\<not> False \<or> length (NodeStack ?D5) \<noteq> 1)"
    using p4 l4 by simp
  from inst [where MangledName = "''_T0x''" and ok' = False and ?D4.0 = ?D4 and ?D5.0 = ?D5,
      THEN conjunct2, THEN conjunct2, THEN conjunct2, THEN conjunct1, THEN mp, OF h4]
  have r4: "map_option fst (demangleSymbol ?op ''_T0x'' ?D) = Some None" by simp
  from inst [where MangledName = "''i''" and ?D6.0 = "?D\<lparr>Text := ''i''\<rparr>",
      THEN conjunct2, THEN conjunct2, THEN conjunct2, THEN conjunct2, THEN conjunct1, THEN mp, OF p5]
  have r5: "map_option fst (demangleSymbol ?op ''i'' ?D) = Some None" by simp
  from inst [where MangledName = "''i''" and nd = ?n, THEN conjunct1, THEN mp, OF e1]
  have x1: "\<exists>p. NodeStack (?D\<lparr>Text := ''i'', Pos := 1, NodeStack := [NodeWithPos (Some ?n) 1]\<rparr>)
      = [NodeWithPos (Some ?n) p]" by blast
  from inst [where MangledName = "''_T0i''" and nd = ?n, THEN conjunct2, THEN conjunct1, THEN mp, OF e3]
  have x3: "\<exists>p. NodeStack (?D\<lparr>Text := ''_T0i'', Pos := 4, NodeStack := [NodeWithPos (Some ?n) 4]\<rparr>)
      = [NodeWithPos (Some ?n) p]" by blast
  from inst [where MangledName = "''i''",
      THEN conjunct2, THEN conjunct2, THEN conjunct2, THEN conjunct2, THEN conjunct2, THEN mp, OF c]
  have x6: "\<exists>res. demangleType ?op ''i'' ?D = Some res" by blast
  from c e1 r2 e3 r4 r5 show ?thesis by simp
qed

end
